theory Spec2Isabelle
  imports Main "HOL-Library.Sublist"
begin

section \<open>Strings as the Go code uses them\<close>

text \<open>
  A Go \<open>string\<close> is a byte sequence; it is modelled as \<^typ>\<open>string\<close> (a list of
  \<^typ>\<open>char\<close>, one per byte). \<open>strings.HasPrefix s p\<close> is \<^term>\<open>prefix p s\<close>.
\<close>

text \<open>\<open>strings.Contains(s, substr)\<close>: does \<open>substr\<close> occur in \<open>s\<close>.\<close>

fun Contains :: "string \<Rightarrow> string \<Rightarrow> bool" where
  "Contains [] sub = (sub = [])"
| "Contains (c # s) sub = (prefix sub (c # s) \<or> Contains s sub)"

text \<open>\<open>strings.HasSuffix(s, suffix)\<close>.\<close>

definition HasSuffix :: "string \<Rightarrow> string \<Rightarrow> bool" where
  "HasSuffix s suf = (length suf \<le> length s \<and> drop (length s - length suf) s = suf)"

section \<open>Media-reference validator and scorer (\<open>main.go\<close>, lines 771--897)\<close>

text \<open>\<open>isValidVideoURL\<close>: the checks in the order of the source.\<close>

definition facebookVideoCDNs :: "string list" where
  "facebookVideoCDNs = [''video.fbcdn.net'', ''scontent-video'', ''video.xx.fbcdn.net'', ''video-'']"

definition videoKeywords :: "string list" where
  "videoKeywords = [''video'', ''playable'', ''stream'', ''media'', ''.mp4'', ''.webm'', ''.mov'']"

definition isValidVideoURL :: "string \<Rightarrow> bool" where
  "isValidVideoURL url =
    (if url = [] then False
     else if Contains url ''.jpg'' \<or> Contains url ''.jpeg'' \<or> Contains url ''.png''
             \<or> Contains url ''.webp'' \<or> Contains url ''.gif'' then False
     else if Contains url ''.mp4'' \<or> Contains url ''.webm'' \<or> Contains url ''.mov''
             \<or> Contains url ''.m4v'' \<or> Contains url ''.avi'' \<or> Contains url ''.mkv'' then True
     else if list_ex (Contains url) facebookVideoCDNs then True
     else if Contains url ''cdninstagram.com'' then True
     else if (Contains url ''fbcdn.net'' \<or> Contains url ''scontent'')
             \<and> (Contains url ''video'' \<or> Contains url ''.mp4'') then True
     else if (Contains url ''threads.net'' \<or> Contains url ''fbcdn.net'' \<or> Contains url ''scontent'')
             \<and> list_ex (Contains url) videoKeywords then True
     else False)"

text \<open>\<open>isValidImageURL\<close>.\<close>

definition excludePatterns :: "string list" where
  "excludePatterns =
    [''profile'', ''avatar'', ''logo'', ''icon'', ''badge'', ''button'', ''default'', ''safe_image'']"

definition hasImageExtension :: "string \<Rightarrow> bool" where
  "hasImageExtension url =
    (Contains url ''.jpg'' \<or> Contains url ''.jpeg'' \<or> Contains url ''.png'' \<or> Contains url ''.webp'')"

definition isValidImageURL :: "string \<Rightarrow> bool" where
  "isValidImageURL url =
    (if url = [] then False
     else if Contains url ''.mp4'' \<or> Contains url ''.webm'' \<or> Contains url ''.mov''
             \<or> Contains url ''video'' then False
     else if \<not> Contains url ''cdninstagram.com'' \<and> \<not> Contains url ''fbcdn.net''
             \<and> \<not> Contains url ''scontent'' then False
     else if \<not> hasImageExtension url then False
     else if list_ex (Contains url) excludePatterns then False
     else True)"

text \<open>\<open>scoreImageURL\<close>: Go's \<open>int\<close> is modelled as \<^typ>\<open>int\<close>; the values stay below 126.\<close>

definition scoreImageURL :: "string \<Rightarrow> int" where
  "scoreImageURL url =
    (if \<not> isValidImageURL url then 0
     else
       (let score = 50;
            score = (if Contains url ''1080x1080'' then score + 50
                     else if Contains url ''720x720'' then score + 30
                     else if Contains url ''640x640'' then score + 20
                     else score);
            score = (if Contains url ''full_res'' \<or> Contains url ''original'' then score + 25
                     else score)
        in score))"

section \<open>Regular expressions (Go's \<open>regexp\<close>, as far as the patterns of \<open>main.go\<close> need it)\<close>

text \<open>
  Go's \<open>regexp\<close> finds the leftmost match and, among the matches that start there, the one
  a backtracking matcher finds first (greedy operators prefer more, lazy ones less). The
  patterns of \<open>main.go\<close> are sequences of literals, repetitions of a single character class,
  an optional character, alternatives of literals and one capture group that is read
  (\<open>matches[1]\<close>); a pattern is modelled as the list of these items, in the order of its text.

  The matcher below works on bytes. Go matches code points, but every repeated class of these
  patterns is either an ASCII class (\<open>\s\<close>, \<open>\d\<close>, \<open>\w\<close>, which no byte \<open>\<ge> 0x80\<close> is in)
  or a negated class or \<open>.\<close> (which every byte \<open>\<ge> 0x80\<close> is in), so both agree.
\<close>

datatype citem = Ch char | PerlS | PerlD | PerlW

fun citem_mem :: "citem \<Rightarrow> char \<Rightarrow> bool" where
  "citem_mem (Ch d) c = (c = d)"
| "citem_mem PerlS c = (c \<in> set [CHR 0x09, CHR 0x0A, CHR 0x0C, CHR 0x0D, CHR 0x20])"
| "citem_mem PerlD c = (48 \<le> (of_char c :: nat) \<and> (of_char c :: nat) \<le> 57)"
| "citem_mem PerlW c =
     ((48 \<le> (of_char c :: nat) \<and> (of_char c :: nat) \<le> 57)
      \<or> (65 \<le> (of_char c :: nat) \<and> (of_char c :: nat) \<le> 90)
      \<or> (97 \<le> (of_char c :: nat) \<and> (of_char c :: nat) \<le> 122)
      \<or> c = CHR ''_'')"

text \<open>\<open>In\<close> is a class \<open>[...]\<close>, \<open>NotIn\<close> a negated class \<open>[^...]\<close>, \<open>Dot\<close> is \<open>.\<close> (any byte but newline).\<close>

datatype cls = In "citem list" | NotIn "citem list" | Dot

fun cls_mem :: "cls \<Rightarrow> char \<Rightarrow> bool" where
  "cls_mem (In its) c = list_ex (\<lambda>i. citem_mem i c) its"
| "cls_mem (NotIn its) c = (\<not> list_ex (\<lambda>i. citem_mem i c) its)"
| "cls_mem Dot c = (c \<noteq> CHR 0x0A)"

text \<open>
  \<open>L s\<close>: the literal \<open>s\<close>; \<open>St k\<close>: \<open>k*\<close>; \<open>Pl k\<close>: \<open>k+\<close>; \<open>LSt k\<close>: \<open>k*?\<close>; \<open>Op c\<close>: \<open>c?\<close>;
  \<open>GO\<close> and \<open>GC\<close>: the parentheses of group 1; \<open>AltL as\<close>: \<open>a1|a2|...\<close> of literals.
\<close>

datatype item = L string | St cls | Pl cls | LSt cls | Op char | GO | GC | AltL "string list"

fun item_size :: "item \<Rightarrow> nat" where
  "item_size (AltL as) = Suc (length as)"
| "item_size _ = 1"

text \<open>
  \<open>matchseq its s g c\<close> matches the items at the start of \<open>s\<close>: \<open>g\<close> is the input where
  group 1 opened, \<open>c\<close> the text group 1 captured. The result is the input left after the
  match, with the capture.
\<close>

function (sequential) matchseq ::
  "item list \<Rightarrow> string \<Rightarrow> string option \<Rightarrow> string option \<Rightarrow> (string \<times> string option) option" where
  "matchseq [] s g c = Some (s, c)"
| "matchseq (L lit # its) s g c =
     (if prefix lit s then matchseq its (drop (length lit) s) g c else None)"
| "matchseq (St k # its) [] g c = matchseq its [] g c"
| "matchseq (St k # its) (x # xs) g c =
     (if cls_mem k x
      then (case matchseq (St k # its) xs g c of Some r \<Rightarrow> Some r
            | None \<Rightarrow> matchseq its (x # xs) g c)
      else matchseq its (x # xs) g c)"
| "matchseq (Pl k # its) [] g c = None"
| "matchseq (Pl k # its) (x # xs) g c =
     (if cls_mem k x then matchseq (St k # its) xs g c else None)"
| "matchseq (LSt k # its) [] g c = matchseq its [] g c"
| "matchseq (LSt k # its) (x # xs) g c =
     (case matchseq its (x # xs) g c of Some r \<Rightarrow> Some r
      | None \<Rightarrow> if cls_mem k x then matchseq (LSt k # its) xs g c else None)"
| "matchseq (Op ch # its) [] g c = matchseq its [] g c"
| "matchseq (Op ch # its) (x # xs) g c =
     (if x = ch
      then (case matchseq its xs g c of Some r \<Rightarrow> Some r | None \<Rightarrow> matchseq its (x # xs) g c)
      else matchseq its (x # xs) g c)"
| "matchseq (GO # its) s g c = matchseq its s (Some s) c"
| "matchseq (GC # its) s g c =
     matchseq its s g (case g of Some s0 \<Rightarrow> Some (take (length s0 - length s) s0) | None \<Rightarrow> c)"
| "matchseq (AltL [] # its) s g c = None"
| "matchseq (AltL (a # as) # its) s g c =
     (if prefix a s
      then (case matchseq its (drop (length a) s) g c of Some r \<Rightarrow> Some r
            | None \<Rightarrow> matchseq (AltL as # its) s g c)
      else matchseq (AltL as # its) s g c)"
  by pat_completeness auto
termination
  by (relation "measures [\<lambda>(its, s, g, c). sum_list (map item_size its),
                          \<lambda>(its, s, g, c). length s]") auto

text \<open>The leftmost match: the first start position, from the left, where the items match.\<close>

fun findFirst :: "item list \<Rightarrow> string \<Rightarrow> (string \<times> string option) option" where
  "findFirst its [] = matchseq its [] None None"
| "findFirst its (x # xs) =
     (case matchseq its (x # xs) None None of Some r \<Rightarrow> Some r | None \<Rightarrow> findFirst its xs)"

text \<open>\<open>regexp.MatchString(pattern, s)\<close> for a pattern without \<open>^\<close>.\<close>

definition MatchString :: "item list \<Rightarrow> string \<Rightarrow> bool" where
  "MatchString its s = (findFirst its s \<noteq> None)"

text \<open>
  \<open>re.FindStringSubmatch(s)\<close> as its callers read it: they test \<open>len(matches) > 1\<close> and take
  \<open>matches[1]\<close>. The slice has one entry per group after the whole match, so the test fails
  for a pattern without a group even when the pattern matches.
\<close>

definition FindStringSubmatch1 :: "item list \<Rightarrow> string \<Rightarrow> string option" where
  "FindStringSubmatch1 its s =
     (case findFirst its s of
        None \<Rightarrow> None
      | Some (rest, c) \<Rightarrow>
          if GO \<in> set its then Some (case c of None \<Rightarrow> [] | Some t \<Rightarrow> t) else None)"

text \<open>
  \<open>re.FindAllStringSubmatch(s, -1)\<close>, again as \<open>matches[1]\<close> of every match that has one:
  successive matches that do not overlap. \<open>skip\<close> counts the bytes of the last match that
  are still to be passed. Every pattern searched this way starts with a literal, so no match
  is empty.
\<close>

fun findAllFrom :: "item list \<Rightarrow> nat \<Rightarrow> string \<Rightarrow> string option list" where
  "findAllFrom its skip [] =
     (if skip = 0 then (case matchseq its [] None None of Some (rest, c) \<Rightarrow> [c] | None \<Rightarrow> [])
      else [])"
| "findAllFrom its skip (x # xs) =
     (if 0 < skip then findAllFrom its (skip - 1) xs
      else (case matchseq its (x # xs) None None of
              Some (rest, c) \<Rightarrow> c # findAllFrom its (length (x # xs) - length rest - 1) xs
            | None \<Rightarrow> findAllFrom its 0 xs))"

definition FindAllStringSubmatch1 :: "item list \<Rightarrow> string \<Rightarrow> string list" where
  "FindAllStringSubmatch1 its s =
     (if GO \<in> set its
      then map (\<lambda>c. case c of None \<Rightarrow> [] | Some t \<Rightarrow> t) (findAllFrom its 0 s)
      else [])"

text \<open>The character classes of the patterns.\<close>

definition ws :: cls where "ws = In [PerlS]"
definition digit :: cls where "digit = In [PerlD]"
definition notQuote :: cls where \<open>notQuote = NotIn [Ch (CHR 0x22)]\<close>
definition notBrace :: cls where "notBrace = NotIn [Ch (CHR ''}'')]"
definition notLt :: cls where "notLt = NotIn [Ch (CHR ''<'')]"
definition notQuoteSpace :: cls where
  \<open>notQuoteSpace = NotIn [Ch (CHR 0x22), Ch (CHR 0x27), PerlS]\<close>

text \<open>
  The unescaping step of the source:
  \<open>strings.ReplaceAll(url, "\\u0026", "&")\<close>, then \<open>strings.ReplaceAll(url, "\\/", "/")\<close>.
  \<open>ReplaceAll\<close> replaces the occurrences of \<open>old\<close> from the left, without overlap; \<open>old\<close> is
  not empty at any call of the source.
\<close>

fun ReplaceAll :: "string \<Rightarrow> string \<Rightarrow> string \<Rightarrow> string" where
  "ReplaceAll [] old new = []"
| "ReplaceAll (c # s) old new =
     (if old \<noteq> [] \<and> prefix old (c # s)
      then new @ ReplaceAll (drop (length old - 1) s) old new
      else c # ReplaceAll s old new)"

definition unescapeURL :: "string \<Rightarrow> string" where
  "unescapeURL url =
     ReplaceAll (ReplaceAll url [CHR 0x5C, CHR ''u'', CHR ''0'', CHR ''0'', CHR ''2'', CHR ''6''] ''&'')
                [CHR 0x5C, CHR ''/''] ''/''"

section \<open>Metadata extractor (\<open>extractVideoMetadata\<close>, lines 683--769)\<close>

text \<open>
  \<open>strconv.ParseInt(s, 10, 64)\<close>: an optional sign, then one or more decimal digits; a value
  outside the range of \<open>int64\<close> is an error. \<open>None\<close> is the error.
\<close>

definition isDigit :: "char \<Rightarrow> bool" where
  "isDigit c = (48 \<le> (of_char c :: nat) \<and> (of_char c :: nat) \<le> 57)"

definition digitsValue :: "string \<Rightarrow> int" where
  "digitsValue ds = foldl (\<lambda>acc c. 10 * acc + ((of_char c :: int) - 48)) 0 ds"

definition maxInt64 :: int where
  "maxInt64 = 9223372036854775807"

definition ParseInt10_64 :: "string \<Rightarrow> int option" where
  "ParseInt10_64 s =
     (let neg = (s \<noteq> [] \<and> hd s = CHR ''-'');
          ds = (if s \<noteq> [] \<and> (hd s = CHR ''+'' \<or> hd s = CHR ''-'') then tl s else s)
      in if ds = [] \<or> \<not> list_all isDigit ds then None
         else if \<not> neg \<and> maxInt64 < digitsValue ds then None
         else if neg \<and> maxInt64 + 1 < digitsValue ds then None
         else Some (if neg then - digitsValue ds else digitsValue ds))"

text \<open>Go's integer division truncates towards zero.\<close>

definition go_div :: "int \<Rightarrow> int \<Rightarrow> int" where
  "go_div a b = sgn a * sgn b * (\<bar>a\<bar> div \<bar>b\<bar>)"

text \<open>\<open>fmt.Sprintf("%d", n)\<close>.\<close>

fun natDigits :: "nat \<Rightarrow> string" where
  "natDigits n = (if n < 10 then [char_of (48 + n)] else natDigits (n div 10) @ [char_of (48 + n mod 10)])"

definition formatInt :: "int \<Rightarrow> string" where
  "formatInt i = (if i < 0 then CHR ''-'' # natDigits (nat (- i)) else natDigits (nat i))"

text \<open>
  \<open>strings.TrimSpace\<close> removes the leading and the trailing white space of Unicode
  (\<open>unicode.IsSpace\<close>). On bytes, a white-space code point is one of these UTF-8 sequences:
  the six of ASCII (tab, newline, vertical tab, form feed, carriage return, space), U+0085,
  U+00A0, U+1680, U+2000 to U+200A, U+2028, U+2029, U+202F, U+205F and U+3000. A sequence
  that is not valid UTF-8 decodes to no white space, and none is in the list.
\<close>

definition spaceRunes :: "string list" where
  "spaceRunes =
     [[CHR 0x09], [CHR 0x0A], [CHR 0x0B], [CHR 0x0C], [CHR 0x0D], [CHR 0x20],
      [CHR 0xC2, CHR 0x85], [CHR 0xC2, CHR 0xA0],
      [CHR 0xE1, CHR 0x9A, CHR 0x80],
      [CHR 0xE2, CHR 0x80, CHR 0x80], [CHR 0xE2, CHR 0x80, CHR 0x81],
      [CHR 0xE2, CHR 0x80, CHR 0x82], [CHR 0xE2, CHR 0x80, CHR 0x83],
      [CHR 0xE2, CHR 0x80, CHR 0x84], [CHR 0xE2, CHR 0x80, CHR 0x85],
      [CHR 0xE2, CHR 0x80, CHR 0x86], [CHR 0xE2, CHR 0x80, CHR 0x87],
      [CHR 0xE2, CHR 0x80, CHR 0x88], [CHR 0xE2, CHR 0x80, CHR 0x89],
      [CHR 0xE2, CHR 0x80, CHR 0x8A],
      [CHR 0xE2, CHR 0x80, CHR 0xA8], [CHR 0xE2, CHR 0x80, CHR 0xA9],
      [CHR 0xE2, CHR 0x80, CHR 0xAF],
      [CHR 0xE2, CHR 0x81, CHR 0x9F],
      [CHR 0xE3, CHR 0x80, CHR 0x80]]"

text \<open>
  The number of bytes of the white-space code point at the start, and at the end, of a
  string; 0 when there is none.
\<close>

definition leadingSpace :: "string \<Rightarrow> nat" where
  "leadingSpace s = (case find (\<lambda>r. prefix r s) spaceRunes of Some r \<Rightarrow> length r | None \<Rightarrow> 0)"

definition trailingSpace :: "string \<Rightarrow> nat" where
  "trailingSpace s = (case find (\<lambda>r. suffix r s) spaceRunes of Some r \<Rightarrow> length r | None \<Rightarrow> 0)"

function TrimLeftSpace :: "string \<Rightarrow> string" where
  "TrimLeftSpace s =
     (if s = [] \<or> leadingSpace s = 0 then s else TrimLeftSpace (drop (leadingSpace s) s))"
  by pat_completeness auto
termination
  by (relation "measure length") auto

function TrimRightSpace :: "string \<Rightarrow> string" where
  "TrimRightSpace s =
     (if s = [] \<or> trailingSpace s = 0 then s
      else TrimRightSpace (take (length s - trailingSpace s) s))"
  by pat_completeness auto
termination
  by (relation "measure length") auto

definition TrimSpace :: "string \<Rightarrow> string" where
  "TrimSpace s = TrimRightSpace (TrimLeftSpace s)"

text \<open>
  The table \<open>metadataPatterns\<close>, key by key:
  \<^verbatim>\<open>"video_id":"?(\d+)"?\<close>,
  \<^verbatim>\<open><title>([^<]+)</title>\<close>,
  \<^verbatim>\<open>"playable_duration_in_ms":(\d+)\<close>,
  \<^verbatim>\<open>"browser_native_hd_url":"([^"]+)"\<close>,
  \<^verbatim>\<open>"browser_native_sd_url":"([^"]+)"\<close>,
  \<^verbatim>\<open>"hd_src":"([^"]+)"\<close>,
  \<^verbatim>\<open>"sd_src":"([^"]+)"\<close>,
  \<^verbatim>\<open>"playable_url":"([^"]+)"\<close>.
\<close>

definition metadataPatterns :: "(string \<times> item list) list" where
  \<open>metadataPatterns =
    [(''video_id'', [L ''"video_id":'', Op (CHR 0x22), GO, Pl digit, GC, Op (CHR 0x22)]),
     (''title'', [L ''<title>'', GO, Pl notLt, GC, L ''</title>'']),
     (''duration'', [L ''"playable_duration_in_ms":'', GO, Pl digit, GC]),
     (''browser_hd'', [L ''"browser_native_hd_url":"'', GO, Pl notQuote, GC, L ''"'']),
     (''browser_sd'', [L ''"browser_native_sd_url":"'', GO, Pl notQuote, GC, L ''"'']),
     (''hd_src'', [L ''"hd_src":"'', GO, Pl notQuote, GC, L ''"'']),
     (''sd_src'', [L ''"sd_src":"'', GO, Pl notQuote, GC, L ''"'']),
     (''playable_url'', [L ''"playable_url":"'', GO, Pl notQuote, GC, L ''"''])]\<close>

text \<open>
  \<open>metadataPatterns[key].FindStringSubmatch(html)\<close>, read as \<open>matches[1]\<close> when
  \<open>len(matches) > 1\<close>. Every key the source reads is in the table.
\<close>

definition metadataCapture :: "string \<Rightarrow> string \<Rightarrow> string option" where
  "metadataCapture key html =
     (case map_of metadataPatterns key of
        None \<Rightarrow> None
      | Some re \<Rightarrow> FindStringSubmatch1 re html)"

text \<open>The five values \<open>extractVideoMetadata\<close> returns.\<close>

record VideoMetadata =
  mdVideoID :: string
  mdTitle :: string
  mdDuration :: int
  mdVideoUrls :: "string \<rightharpoonup> string"
  mdMetadata :: "string \<rightharpoonup> string"

definition emptyMetadata :: VideoMetadata where
  "emptyMetadata =
     \<lparr>mdVideoID = [], mdTitle = [], mdDuration = 0, mdVideoUrls = Map.empty, mdMetadata = Map.empty\<rparr>"

definition extractVideoID :: "string \<Rightarrow> VideoMetadata \<Rightarrow> VideoMetadata" where
  "extractVideoID html m =
     (case metadataCapture ''video_id'' html of
        Some v \<Rightarrow> m\<lparr>mdVideoID := v, mdMetadata := (mdMetadata m)(''video_id'' \<mapsto> v)\<rparr>
      | None \<Rightarrow> m)"

definition extractTitle :: "string \<Rightarrow> VideoMetadata \<Rightarrow> VideoMetadata" where
  "extractTitle html m =
     (case metadataCapture ''title'' html of
        Some v \<Rightarrow>
          (let title = TrimSpace v;
               title = ReplaceAll title '' | Facebook'' [];
               title = ReplaceAll title '' - Facebook'' []
           in m\<lparr>mdTitle := title, mdMetadata := (mdMetadata m)(''title'' \<mapsto> title)\<rparr>)
      | None \<Rightarrow> m)"

definition extractDuration :: "string \<Rightarrow> VideoMetadata \<Rightarrow> VideoMetadata" where
  "extractDuration html m =
     (case metadataCapture ''duration'' html of
        Some v \<Rightarrow>
          (case ParseInt10_64 v of
             Some durationMs \<Rightarrow>
               (let duration = go_div durationMs 1000
                in m\<lparr>mdDuration := duration,
                     mdMetadata := (mdMetadata m)(''duration'' \<mapsto> formatInt duration @ '' seconds'')\<rparr>)
           | None \<Rightarrow> m)
      | None \<Rightarrow> m)"

definition extractQuality :: "string \<Rightarrow> string \<Rightarrow> VideoMetadata \<Rightarrow> VideoMetadata" where
  "extractQuality key html m =
     (case metadataCapture key html of
        Some v \<Rightarrow> m\<lparr>mdVideoUrls := (mdVideoUrls m)(key \<mapsto> unescapeURL v)\<rparr>
      | None \<Rightarrow> m)"

definition extractVideoMetadata :: "string \<Rightarrow> VideoMetadata" where
  "extractVideoMetadata html =
     (let m = emptyMetadata;
          m = extractVideoID html m;
          m = extractTitle html m;
          m = extractDuration html m;
          m = extractQuality ''browser_hd'' html m;
          m = extractQuality ''browser_sd'' html m;
          m = extractQuality ''hd_src'' html m;
          m = extractQuality ''sd_src'' html m;
          m = extractQuality ''playable_url'' html m
      in m)"

section \<open>The rendered page, as the extraction code reads it\<close>

text \<open>
  The browser is outside the repository. The code reads a page through these calls only:
  \<open>page.Elements(selector)\<close>, \<open>page.Element(selector)\<close>, \<open>page.HTML()\<close> and, on an element,
  \<open>Attribute(name)\<close>, \<open>Elements("source")\<close> and \<open>Eval\<close> of \<open>this.currentSrc || this.src\<close>.
  A page is a snapshot: \<open>elements page selector\<close> is what the browser answers to the query for
  the elements that match, \<open>None\<close> when it answers with an error, which the code swallows;
  likewise \<open>HTML\<close>, \<open>sources\<close> and \<open>currentSrc\<close>. An answer takes no time. Time passes only
  where the code waits for something that does not come: \<open>page.Element\<close> below.
\<close>

record Element =
  attrs :: "(string \<times> string) list"
  sources :: "(string \<times> string) list list option"
  currentSrc :: "string option"

record Page =
  elements :: "string \<Rightarrow> Element list option"
  HTML :: "string option"

text \<open>
  \<open>el.Attribute(name)\<close> guarded as everywhere in the source by
  \<open>err == nil && v != nil && *v != ""\<close>.
\<close>

definition attribute :: "(string \<times> string) list \<Rightarrow> string \<Rightarrow> string option" where
  "attribute as name =
     (case map_of as name of Some v \<Rightarrow> if v \<noteq> [] then Some v else None | None \<Rightarrow> None)"

text \<open>
  \<open>page.Context(ctx).Element(selector)\<close>. The flag says whether the context \<open>ctx\<close> is still
  alive, before and after the call. With an expired context the call fails at once. When an
  element matches, the call returns the first. When the browser answers with an error, the
  call returns it. When no element matches, the call tries again until the context expires,
  and returns the error of the context; every later call with that context fails.
\<close>

definition element :: "Page \<Rightarrow> bool \<Rightarrow> string \<Rightarrow> Element option \<times> bool" where
  "element page alive selector =
     (if \<not> alive then (None, False)
      else (case elements page selector of
              None \<Rightarrow> (None, True)
            | Some [] \<Rightarrow> (None, False)
            | Some (e # es) \<Rightarrow> (Some e, True)))"

text \<open>A loop that returns at the first iteration that yields a value.\<close>

fun firstSome :: "('a \<Rightarrow> 'b option) \<Rightarrow> 'a list \<Rightarrow> 'b option" where
  "firstSome f [] = None"
| "firstSome f (x # xs) = (case f x of Some y \<Rightarrow> Some y | None \<Rightarrow> firstSome f xs)"

text \<open>The value, if it is a valid video URL.\<close>

definition validVideo :: "string option \<Rightarrow> string option" where
  "validVideo v = (case v of Some u \<Rightarrow> if isValidVideoURL u then Some u else None | None \<Rightarrow> None)"

section \<open>The result structure\<close>

record ExtractResponse =
  MediaURL :: string
  MediaType :: string
  Success :: bool
  VideoID :: string
  Title :: string
  Duration :: int
  VideoUrls :: "string \<rightharpoonup> string"
  Metadata :: "string \<rightharpoonup> string"

text \<open>A result with the three fields the DOM strategies fill; the others keep Go's zero values.\<close>

definition mediaResponse :: "string \<Rightarrow> string \<Rightarrow> ExtractResponse" where
  "mediaResponse url ty =
     \<lparr>MediaURL = url, MediaType = ty, Success = True, VideoID = [], Title = [], Duration = 0,
      VideoUrls = Map.empty, Metadata = Map.empty\<rparr>"

section \<open>Content-type classifier (\<open>analyzePageContent\<close>, lines 232--386)\<close>

definition videoIndicators :: "string list" where
  \<open>videoIndicators =
    [''meta[property="og:video:url"]'',
     ''meta[property="og:video"]'',
     ''meta[property="og:video:secure_url"]'',
     ''meta[name="twitter:player:stream"]'',
     ''meta[property="og:type"][content="video"]'',
     ''meta[property="og:type"][content="video.other"]'']\<close>

text \<open>
  The whole of \<open>analyzePageContent\<close> runs under one context of three seconds. The loop over
  the meta selectors returns whether a tag said video, and whether the context is alive
  after the loop.
\<close>

fun metaSaysVideo :: "Page \<Rightarrow> string list \<Rightarrow> bool \<Rightarrow> bool \<times> bool" where
  "metaSaysVideo page [] alive = (False, alive)"
| "metaSaysVideo page (selector # selectors) alive =
     (case element page alive selector of
        (Some meta, alive') \<Rightarrow>
          (case attribute (attrs meta) ''content'' of
             Some content \<Rightarrow>
               if Contains content ''video'' \<or> Contains content ''.mp4'' then (True, alive')
               else metaSaysVideo page selectors alive'
           | None \<Rightarrow> metaSaysVideo page selectors alive')
      | (None, alive') \<Rightarrow> metaSaysVideo page selectors alive')"

text \<open>One \<open>video\<close> element: its \<open>src\<close>, its \<open>data-src\<close>, then the \<open>src\<close> of its \<open>source\<close> children.\<close>

definition videoElementSaysVideo :: "Element \<Rightarrow> bool" where
  "videoElementSaysVideo video =
     (validVideo (attribute (attrs video) ''src'') \<noteq> None
      \<or> validVideo (attribute (attrs video) ''data-src'') \<noteq> None
      \<or> (case sources video of
            Some srcs \<Rightarrow> list_ex (\<lambda>source. validVideo (attribute source ''src'') \<noteq> None) srcs
          | None \<Rightarrow> False))"

text \<open>
  \<open>videoIndicatorPatterns\<close>, tried with \<open>regexp.MatchString\<close>:
  \<^verbatim>\<open>"__typename":"Video"\<close>,
  \<^verbatim>\<open>"__typename":"XDTGraphVideo"\<close>,
  \<^verbatim>\<open>"is_video":true\<close>,
  \<^verbatim>\<open>"media_type":2\<close>,
  \<^verbatim>\<open>"media_type":"2"\<close>,
  \<^verbatim>\<open>"product_type":"clips"\<close>,
  \<^verbatim>\<open>"product_type":"igtv"\<close>,
  \<^verbatim>\<open>"video_url":"\<close>,
  \<^verbatim>\<open>"video_versions":\s*\[\<close>,
  \<^verbatim>\<open>"video_dash_manifest":"\<close>,
  \<^verbatim>\<open>"video_duration":\<close>,
  \<^verbatim>\<open>"has_audio":\<close>,
  \<^verbatim>\<open>"original_width":.*"original_height":\<close>,
  \<^verbatim>\<open>"playback_duration_secs":\<close>.
\<close>

definition videoIndicatorPatterns :: "item list list" where
  \<open>videoIndicatorPatterns =
    [[L ''"__typename":"Video"''],
     [L ''"__typename":"XDTGraphVideo"''],
     [L ''"is_video":true''],
     [L ''"media_type":2''],
     [L ''"media_type":"2"''],
     [L ''"product_type":"clips"''],
     [L ''"product_type":"igtv"''],
     [L ''"video_url":"''],
     [L ''"video_versions":'', St ws, L ''[''],
     [L ''"video_dash_manifest":"''],
     [L ''"video_duration":''],
     [L ''"has_audio":''],
     [L ''"original_width":'', St Dot, L ''"original_height":''],
     [L ''"playback_duration_secs":'']]\<close>

text \<open>
  \<open>videoURLPatterns\<close> of the classifier, tried with \<open>FindStringSubmatch\<close>:
  \<^verbatim>\<open>"video_url":\s*"([^"]+)"\<close>,
  \<^verbatim>\<open>"url":\s*"([^"]+\.mp4[^"]*)"\<close>,
  \<^verbatim>\<open>video_versions":\s*\[\s*\{\s*"url":\s*"([^"]+)"\<close>,
  \<^verbatim>\<open>video_versions".*?"url":"([^"]+\.mp4[^"]*)"\<close>,
  \<^verbatim>\<open>"src":\s*"([^"]+\.mp4[^"]*)"\<close>,
  \<^verbatim>\<open>"video_dash_manifest":\s*"([^"]+)"\<close>,
  \<^verbatim>\<open>browser_native_hd_url":\s*"([^"]+)"\<close>,
  \<^verbatim>\<open>browser_native_sd_url":\s*"([^"]+)"\<close>.
\<close>

definition videoURLPatterns :: "item list list" where
  \<open>videoURLPatterns =
    [[L ''"video_url":'', St ws, L ''"'', GO, Pl notQuote, GC, L ''"''],
     [L ''"url":'', St ws, L ''"'', GO, Pl notQuote, L ''.mp4'', St notQuote, GC, L ''"''],
     [L ''video_versions":'', St ws, L ''['', St ws, L ''{'', St ws, L ''"url":'', St ws,
      L ''"'', GO, Pl notQuote, GC, L ''"''],
     [L ''video_versions"'', LSt Dot, L ''"url":"'', GO, Pl notQuote, L ''.mp4'', St notQuote, GC,
      L ''"''],
     [L ''"src":'', St ws, L ''"'', GO, Pl notQuote, L ''.mp4'', St notQuote, GC, L ''"''],
     [L ''"video_dash_manifest":'', St ws, L ''"'', GO, Pl notQuote, GC, L ''"''],
     [L ''browser_native_hd_url":'', St ws, L ''"'', GO, Pl notQuote, GC, L ''"''],
     [L ''browser_native_sd_url":'', St ws, L ''"'', GO, Pl notQuote, GC, L ''"'']]\<close>

text \<open>The image test of the classifier on an \<open>img\<close> element's \<open>src\<close>.\<close>

definition contentImageSrc :: "string \<Rightarrow> bool" where
  "contentImageSrc src =
     ((Contains src ''cdninstagram.com'' \<or> Contains src ''fbcdn.net'' \<or> Contains src ''scontent'')
      \<and> (Contains src ''.jpg'' \<or> Contains src ''.jpeg'' \<or> Contains src ''.png''
           \<or> Contains src ''.webp''))"

definition imageCount :: "Element list \<Rightarrow> nat" where
  "imageCount imgs =
     length (filter (\<lambda>img. case attribute (attrs img) ''src'' of
                              Some src \<Rightarrow> contentImageSrc src | None \<Rightarrow> False) imgs)"

definition ogImageSaysImage :: "Element option \<Rightarrow> bool" where
  "ogImageSaysImage imageMeta =
     (case imageMeta of
        Some meta \<Rightarrow>
          (case attribute (attrs meta) ''content'' of
             Some content \<Rightarrow> Contains content ''.jpg'' \<or> Contains content ''.jpeg''
                              \<or> Contains content ''.png'' \<or> Contains content ''.webp''
           | None \<Rightarrow> False)
      | None \<Rightarrow> False)"

text \<open>
  The markup test of the classifier: one of the indicator patterns matches, or the capture of
  one of the URL patterns is a valid video URL.
\<close>

definition htmlSaysVideo :: "string \<Rightarrow> bool" where
  "htmlSaysVideo html =
     (list_ex (\<lambda>pattern. MatchString pattern html) videoIndicatorPatterns
      \<or> list_ex (\<lambda>pattern. validVideo (FindStringSubmatch1 pattern html) \<noteq> None)
           videoURLPatterns)"

text \<open>
  The calls after the loop use the same context: once it has expired, the query for the
  \<open>video\<close> elements, the markup and the later probes all fail, and the answer is the default.
\<close>

definition analyzePageContent :: "Page \<Rightarrow> string" where
  \<open>analyzePageContent page =
     (case metaSaysVideo page videoIndicators True of
        (True, alive) \<Rightarrow> ''video''
      | (False, alive) \<Rightarrow>
          if alive \<and> (case elements page ''video'' of
                        Some videoElements \<Rightarrow> list_ex videoElementSaysVideo videoElements
                      | None \<Rightarrow> False) then ''video''
          else if alive \<and> (case HTML page of Some html \<Rightarrow> htmlSaysVideo html | None \<Rightarrow> False)
          then ''video''
          else (case element page alive ''meta[property="og:image"]'' of
                  (imageMeta, alive') \<Rightarrow>
                    if ogImageSaysImage imageMeta then ''image''
                    else if alive' \<and> (case elements page ''img'' of
                                        Some imgElements \<Rightarrow> 0 < imageCount imgElements
                                      | None \<Rightarrow> False) then ''image''
                    else ''image''))\<close>

section \<open>DOM-element strategy (\<open>extractFromDOMElements\<close>, lines 448--566)\<close>

definition videoSelectors :: "string list" where
  \<open>videoSelectors =
    [''video[src]'',
     ''video'',
     ''[data-testid*='' @ [CHR 0x27] @ ''video'' @ [CHR 0x27] @ '']'',
     ''video[autoplay]'',
     ''[data-video-url]'']\<close>

text \<open>
  One matched element: its \<open>src\<close>, its \<open>data-video-url\<close>, the \<open>src\<close> of its \<open>source\<close>
  children, then the value of \<open>this.currentSrc || this.src\<close>; the first valid video URL.
\<close>

definition probeVideoElement :: "Element \<Rightarrow> string option" where
  "probeVideoElement video =
     (case validVideo (attribute (attrs video) ''src'') of
        Some u \<Rightarrow> Some u
      | None \<Rightarrow>
     (case validVideo (attribute (attrs video) ''data-video-url'') of
        Some u \<Rightarrow> Some u
      | None \<Rightarrow>
     (case (case sources video of
              Some srcs \<Rightarrow> firstSome (\<lambda>source. validVideo (attribute source ''src'')) srcs
            | None \<Rightarrow> None) of
        Some u \<Rightarrow> Some u
      | None \<Rightarrow>
     (case currentSrc video of
        Some srcStr \<Rightarrow> if srcStr \<noteq> [] then validVideo (Some srcStr) else None
      | None \<Rightarrow> None))))"

text \<open>
  The image branch keeps the best candidate so far: \<open>bestURL\<close> and \<open>bestScore\<close>, replaced
  only by a strictly higher score.
\<close>

fun bestImage :: "Element list \<Rightarrow> string \<times> int \<Rightarrow> string \<times> int" where
  "bestImage [] best = best"
| "bestImage (img # imgs) (bestURL, bestScore) =
     (case attribute (attrs img) ''src'' of
        Some url \<Rightarrow>
          if isValidImageURL url \<and> \<not> isValidVideoURL url \<and> bestScore < scoreImageURL url
          then bestImage imgs (url, scoreImageURL url)
          else bestImage imgs (bestURL, bestScore)
      | None \<Rightarrow> bestImage imgs (bestURL, bestScore))"

definition extractFromDOMElements :: "Page \<Rightarrow> string \<Rightarrow> ExtractResponse option" where
  "extractFromDOMElements page pageType =
     (if pageType = ''video''
      then map_option (\<lambda>u. mediaResponse u ''video'')
             (firstSome (\<lambda>selector. case elements page selector of
                                       Some videoElements \<Rightarrow> firstSome probeVideoElement videoElements
                                     | None \<Rightarrow> None) videoSelectors)
      else (case elements page ''img'' of
              Some imgElements \<Rightarrow>
                (case bestImage imgElements ([], 0) of
                   (bestURL, bestScore) \<Rightarrow>
                     if bestURL \<noteq> [] \<and> 50 < bestScore then Some (mediaResponse bestURL ''image'')
                     else None)
            | None \<Rightarrow> None))"

section \<open>Source-markup strategy (\<open>extractFromSourceCode\<close>, lines 568--681)\<close>

text \<open>
  \<open>videoPatterns\<close>, in the order of the source:
  \<^verbatim>\<open>video_versions":\s*\[\s*\{\s*"url":\s*"([^"]+)"\<close>,
  \<^verbatim>\<open>"video_url":\s*"([^"]+)"\<close>,
  \<^verbatim>\<open>"url":\s*"([^"]+\.mp4[^"]*)"\<close>,
  \<^verbatim>\<open>video_versions"[^}]*"url":\s*"([^"]+\.mp4[^"]*)"\<close>,
  \<^verbatim>\<open>"playback_url":\s*"([^"]+)"\<close>,
  \<^verbatim>\<open>https://[^"'\s]*video[^"'\s]*fbcdn\.net[^"'\s]*\.mp4[^"'\s]*\<close>,
  \<^verbatim>\<open>https://[^"'\s]*scontent[^"'\s]*\.mp4[^"'\s]*\<close>,
  \<^verbatim>\<open>https://[^"'\s]*cdninstagram\.com[^"'\s]*\.mp4[^"'\s]*\<close>,
  \<^verbatim>\<open>"src":\s*"([^"]+\.mp4[^"]*)"\<close>,
  \<^verbatim>\<open>browser_native_hd_url":\s*"([^"]+)"\<close>,
  \<^verbatim>\<open>browser_native_sd_url":\s*"([^"]+)"\<close>,
  \<^verbatim>\<open>"video_dash_manifest":\s*"([^"]+)"\<close>,
  \<^verbatim>\<open>candidates":\s*\[[^}]*"url":\s*"([^"]+\.mp4[^"]*)"\<close>,
  \<^verbatim>\<open>video_resources"[^}]*"src":\s*"([^"]+\.mp4[^"]*)"\<close>,
  \<^verbatim>\<open>data-video-url="([^"]+)"\<close>,
  \<^verbatim>\<open>data-src="([^"]+\.mp4[^"]*)"\<close>.
  The three patterns that start with \<open>https://\<close> have no group.
\<close>

definition videoPatterns :: "item list list" where
  \<open>videoPatterns =
    [[L ''video_versions":'', St ws, L ''['', St ws, L ''{'', St ws, L ''"url":'', St ws,
      L ''"'', GO, Pl notQuote, GC, L ''"''],
     [L ''"video_url":'', St ws, L ''"'', GO, Pl notQuote, GC, L ''"''],
     [L ''"url":'', St ws, L ''"'', GO, Pl notQuote, L ''.mp4'', St notQuote, GC, L ''"''],
     [L ''video_versions"'', St notBrace, L ''"url":'', St ws, L ''"'', GO, Pl notQuote, L ''.mp4'',
      St notQuote, GC, L ''"''],
     [L ''"playback_url":'', St ws, L ''"'', GO, Pl notQuote, GC, L ''"''],
     [L ''https://'', St notQuoteSpace, L ''video'', St notQuoteSpace, L ''fbcdn.net'',
      St notQuoteSpace, L ''.mp4'', St notQuoteSpace],
     [L ''https://'', St notQuoteSpace, L ''scontent'', St notQuoteSpace, L ''.mp4'',
      St notQuoteSpace],
     [L ''https://'', St notQuoteSpace, L ''cdninstagram.com'', St notQuoteSpace, L ''.mp4'',
      St notQuoteSpace],
     [L ''"src":'', St ws, L ''"'', GO, Pl notQuote, L ''.mp4'', St notQuote, GC, L ''"''],
     [L ''browser_native_hd_url":'', St ws, L ''"'', GO, Pl notQuote, GC, L ''"''],
     [L ''browser_native_sd_url":'', St ws, L ''"'', GO, Pl notQuote, GC, L ''"''],
     [L ''"video_dash_manifest":'', St ws, L ''"'', GO, Pl notQuote, GC, L ''"''],
     [L ''candidates":'', St ws, L ''['', St notBrace, L ''"url":'', St ws, L ''"'', GO,
      Pl notQuote, L ''.mp4'', St notQuote, GC, L ''"''],
     [L ''video_resources"'', St notBrace, L ''"src":'', St ws, L ''"'', GO, Pl notQuote,
      L ''.mp4'', St notQuote, GC, L ''"''],
     [L ''data-video-url="'', GO, Pl notQuote, GC, L ''"''],
     [L ''data-src="'', GO, Pl notQuote, L ''.mp4'', St notQuote, GC, L ''"'']]\<close>

text \<open>
  \<open>imagePatterns\<close>:
  \<^verbatim>\<open>"display_url":\s*"([^"]+)"\<close>,
  \<^verbatim>\<open>"image_url":\s*"([^"]+)"\<close>,
  \<^verbatim>\<open>"url":\s*"([^"]+\.(jpg|jpeg|png|webp)[^"]*)"\<close>,
  \<^verbatim>\<open>https://[^"'\s]*cdninstagram\.com[^"'\s]*\.(jpg|jpeg|png|webp)[^"'\s]*\<close>,
  \<^verbatim>\<open>https://[^"'\s]*fbcdn\.net[^"'\s]*\.(jpg|jpeg|png|webp)[^"'\s]*\<close>,
  \<^verbatim>\<open>https://[^"'\s]*scontent[^"'\s]*\.(jpg|jpeg|png|webp)[^"'\s]*\<close>.
  In the last three, group 1 is the alternative of suffixes.
\<close>

definition imageSuffixes :: "string list" where
  "imageSuffixes = [''jpg'', ''jpeg'', ''png'', ''webp'']"

definition imagePatterns :: "item list list" where
  \<open>imagePatterns =
    [[L ''"display_url":'', St ws, L ''"'', GO, Pl notQuote, GC, L ''"''],
     [L ''"image_url":'', St ws, L ''"'', GO, Pl notQuote, GC, L ''"''],
     [L ''"url":'', St ws, L ''"'', GO, Pl notQuote, L ''.'', AltL imageSuffixes, St notQuote, GC,
      L ''"''],
     [L ''https://'', St notQuoteSpace, L ''cdninstagram.com'', St notQuoteSpace, L ''.'', GO,
      AltL imageSuffixes, GC, St notQuoteSpace],
     [L ''https://'', St notQuoteSpace, L ''fbcdn.net'', St notQuoteSpace, L ''.'', GO,
      AltL imageSuffixes, GC, St notQuoteSpace],
     [L ''https://'', St notQuoteSpace, L ''scontent'', St notQuoteSpace, L ''.'', GO,
      AltL imageSuffixes, GC, St notQuoteSpace]]\<close>

text \<open>The captures of the video patterns, unescaped, in the order the two loops visit them.\<close>

definition videoCandidates :: "string \<Rightarrow> string list" where
  "videoCandidates html =
     concat (map (\<lambda>pattern. map unescapeURL (FindAllStringSubmatch1 pattern html)) videoPatterns)"

definition videoResponse :: "string \<Rightarrow> string \<Rightarrow> ExtractResponse" where
  "videoResponse url html =
     (let m = extractVideoMetadata html
      in \<lparr>MediaURL = url, MediaType = ''video'', Success = True, VideoID = mdVideoID m,
          Title = mdTitle m, Duration = mdDuration m, VideoUrls = mdVideoUrls m,
          Metadata = mdMetadata m\<rparr>)"

definition imageFromPattern :: "string \<Rightarrow> item list \<Rightarrow> string option" where
  "imageFromPattern html pattern =
     (case FindStringSubmatch1 pattern html of
        Some m1 \<Rightarrow>
          (let url = unescapeURL m1
           in if isValidImageURL url \<and> \<not> isValidVideoURL url then Some url else None)
      | None \<Rightarrow> None)"

definition extractFromSourceCode :: "Page \<Rightarrow> string \<Rightarrow> ExtractResponse option" where
  "extractFromSourceCode page pageType =
     (case HTML page of
        None \<Rightarrow> None
      | Some html \<Rightarrow>
          (case find isValidVideoURL (videoCandidates html) of
             Some url \<Rightarrow> Some (videoResponse url html)
           | None \<Rightarrow>
               if pageType = ''image''
               then map_option (\<lambda>u. mediaResponse u ''image'')
                      (firstSome (imageFromPattern html) imagePatterns)
               else None))"

section \<open>URL normalizer (\<open>normalizeURL\<close>, lines 117--149)\<close>

text \<open>
  The three input errors of \<open>normalizeURL\<close>, named as the specification names them, with
  the messages of the source: \<open>InvalidURL\<close> is \<open>invalid URL format: ...\<close>, \<open>UntrustedDomain\<close>
  is \<open>URL must be from threads.com or threads.net\<close>, \<open>MalformedPostPath\<close> is
  \<open>invalid Threads post URL format - must be a post (/@username/post/POST_ID)\<close>.
  \<open>NavigationFailure\<close> is \<open>failed to navigate to Threads post: ...\<close> and \<open>NoMediaFound\<close> is
  \<open>Threads extraction failed - unable to find media URLs in page source\<close>, both of
  \<open>extractMediaURL\<close>.
\<close>

datatype error = InvalidURL | UntrustedDomain | MalformedPostPath | NavigationFailure | NoMediaFound

text \<open>The fields of Go's \<open>url.URL\<close> that \<open>url.Parse\<close> fills from the text (without the user).\<close>

record URL =
  Scheme :: string
  Opaque :: string
  Host :: string
  Path :: string
  RawQuery :: string
  Fragment :: string

definition validDomains :: "string list" where
  "validDomains =
    [''threads.com'', ''www.threads.com'', ''m.threads.com'',
     ''threads.net'', ''www.threads.net'', ''m.threads.net'']"

text \<open>
  \<open>threadsPattern\<close> is \<^verbatim>\<open>^/@[\w.-]+/post/[\w-]+/?\<close>: the pattern starts with \<open>^\<close>, so
  \<open>MatchString\<close> tries the start of the path only; nothing in the pattern ties the match to
  the end of the path.
\<close>

definition threadsPattern :: "item list" where
  "threadsPattern =
     [L ''/@'', Pl (In [PerlW, Ch (CHR ''.''), Ch (CHR ''-'')]), L ''/post/'',
      Pl (In [PerlW, Ch (CHR ''-'')]), Op (CHR ''/'')]"

definition threadsPatternMatch :: "string \<Rightarrow> bool" where
  "threadsPatternMatch path = (matchseq threadsPattern path None None \<noteq> None)"

text \<open>
  \<open>normalizeURL\<close> after \<open>url.Parse\<close> has answered: the domain check, the path check and the
  rebuilt URL.
\<close>

definition normalizeParsed :: "URL \<Rightarrow> error + string" where
  "normalizeParsed parsedURL =
     (if \<not> list_ex (\<lambda>domain. Contains (Host parsedURL) domain) validDomains
      then Inl UntrustedDomain
      else if \<not> threadsPatternMatch (Path parsedURL) then Inl MalformedPostPath
      else Inr (''https://www.threads.net'' @ Path parsedURL))"

text \<open>
  \<open>normalizeURL\<close>. \<open>url.Parse\<close> belongs to Go's standard library, not to the repository, so it
  is a parameter: a function from the text to the parsed URL, \<open>None\<close> when it returns an error.
\<close>

definition normalizeURL :: "(string \<Rightarrow> URL option) \<Rightarrow> string \<Rightarrow> error + string" where
  "normalizeURL parseURL inputURL =
     (case parseURL inputURL of
        None \<Rightarrow> Inl InvalidURL
      | Some parsedURL \<Rightarrow> normalizeParsed parsedURL)"

section \<open>The extraction call (\<open>extractMediaURL\<close>, lines 151--230)\<close>

text \<open>
  The browser is a parameter too: \<open>browser url\<close> is the page rendered after the navigation to
  \<open>url\<close>, \<open>None\<close> when the navigation fails. The two strategies run on that page, both with the
  page type \<open>"video"\<close> written in the source. The waits of the source change no value, and a
  panic of the browser library, which the source recovers into an error, is not modelled.
\<close>

definition extractMediaURL ::
  "(string \<Rightarrow> URL option) \<Rightarrow> (string \<Rightarrow> Page option) \<Rightarrow> string \<Rightarrow> error + ExtractResponse" where
  "extractMediaURL parseURL browser threadsURL =
     (case normalizeURL parseURL threadsURL of
        Inl err \<Rightarrow> Inl err
      | Inr normalizedURL \<Rightarrow>
          (case browser normalizedURL of
             None \<Rightarrow> Inl NavigationFailure
           | Some page \<Rightarrow>
               (case extractFromDOMElements page ''video'' of
                  Some result \<Rightarrow> Inr result
                | None \<Rightarrow>
                    (case extractFromSourceCode page ''video'' of
                       Some result \<Rightarrow> Inr result
                     | None \<Rightarrow> Inl NoMediaFound))))"

text \<open>
  The chain of the two wired strategies run with a given page type, for comparison: what
  \<open>extractMediaURL\<close> would do on a page if it passed that page type to both.
\<close>

definition strategyChain :: "Page \<Rightarrow> string \<Rightarrow> ExtractResponse option" where
  "strategyChain page pageType =
     (case extractFromDOMElements page pageType of
        Some result \<Rightarrow> Some result
      | None \<Rightarrow> extractFromSourceCode page pageType)"

section \<open>\<open>url.Parse\<close> of Go's \<open>net/url\<close>\<close>

text \<open>
  A model of \<open>url.Parse\<close>, used to run \<open>normalizeURL\<close> on concrete texts. It follows the
  library function of Go 1.21 step by step: the fragment is cut at the first \<open>#\<close>, a text with a control
  byte is refused, the scheme is split off, the query is cut at the first \<open>?\<close>, the authority
  is what follows \<open>//\<close> up to the next \<open>/\<close>, host and path are percent-decoded.
\<close>

definition isAlpha :: "char \<Rightarrow> bool" where
  "isAlpha c = ((65 \<le> (of_char c :: nat) \<and> (of_char c :: nat) \<le> 90)
              \<or> (97 \<le> (of_char c :: nat) \<and> (of_char c :: nat) \<le> 122))"

definition stringContainsCTLByte :: "string \<Rightarrow> bool" where
  "stringContainsCTLByte s = list_ex (\<lambda>c. (of_char c :: nat) < 32 \<or> (of_char c :: nat) = 127) s"

text \<open>\<open>strings.Cut(s, sep)\<close> for a separator of one byte: before, after, found.\<close>

definition Cut :: "string \<Rightarrow> char \<Rightarrow> string \<times> string \<times> bool" where
  "Cut s sep =
     (if sep \<in> set s then (takeWhile (\<lambda>c. c \<noteq> sep) s, tl (dropWhile (\<lambda>c. c \<noteq> sep) s), True)
      else (s, [], False))"

text \<open>
  \<open>getScheme\<close>: \<open>Colon i\<close> when the scheme ends at the colon at index \<open>i\<close>, \<open>NoScheme\<close> when the
  text has none, \<open>MissingScheme\<close> for the error \<open>missing protocol scheme\<close>.
\<close>

datatype schemeScan = NoScheme | Colon nat | MissingScheme

fun scanScheme :: "nat \<Rightarrow> string \<Rightarrow> schemeScan" where
  "scanScheme i [] = NoScheme"
| "scanScheme i (c # cs) =
     (if isAlpha c then scanScheme (Suc i) cs
      else if isDigit c \<or> c = CHR ''+'' \<or> c = CHR ''-'' \<or> c = CHR ''.''
           then (if i = 0 then NoScheme else scanScheme (Suc i) cs)
      else if c = CHR '':'' then (if i = 0 then MissingScheme else Colon i)
      else NoScheme)"

definition getScheme :: "string \<Rightarrow> (string \<times> string) option" where
  "getScheme rawURL =
     (case scanScheme 0 rawURL of
        NoScheme \<Rightarrow> Some ([], rawURL)
      | Colon i \<Rightarrow> Some (take i rawURL, drop (Suc i) rawURL)
      | MissingScheme \<Rightarrow> None)"

definition ToLower :: "string \<Rightarrow> string" where
  "ToLower s = map (\<lambda>c. if 65 \<le> (of_char c :: nat) \<and> (of_char c :: nat) \<le> 90
                         then char_of ((of_char c :: nat) + 32) else c) s"

definition ishex :: "char \<Rightarrow> bool" where
  "ishex c = (isDigit c \<or> (97 \<le> (of_char c :: nat) \<and> (of_char c :: nat) \<le> 102)
              \<or> (65 \<le> (of_char c :: nat) \<and> (of_char c :: nat) \<le> 70))"

definition unhex :: "char \<Rightarrow> nat" where
  "unhex c =
     (if isDigit c then (of_char c :: nat) - 48
      else if 97 \<le> (of_char c :: nat) \<and> (of_char c :: nat) \<le> 102 then (of_char c :: nat) - 97 + 10
      else if 65 \<le> (of_char c :: nat) \<and> (of_char c :: nat) \<le> 70 then (of_char c :: nat) - 65 + 10
      else 0)"

text \<open>The parts of a URL that \<open>unescape\<close> is called for by \<open>Parse\<close>.\<close>

datatype encoding = encodePath | encodeHost | encodeZone | encodeUserPassword | encodeFragment

text \<open>\<open>shouldEscape(c, encodeHost)\<close>: the bytes a host may not hold unescaped.\<close>

definition hostShouldEscape :: "char \<Rightarrow> bool" where
  \<open>hostShouldEscape c =
     (\<not> (isAlpha c \<or> isDigit c
         \<or> c \<in> set (''!$&()*+,;=:[]<>"'' @ [CHR 0x27])
         \<or> c \<in> set ''-_.~''))\<close>

text \<open>The check loop of \<open>unescape\<close>: is every \<open>%\<close> followed by two hex digits the mode allows.\<close>

fun unescapeValid :: "encoding \<Rightarrow> string \<Rightarrow> bool" where
  "unescapeValid mode [] = True"
| "unescapeValid mode (c # s) =
     (if c = CHR ''%''
      then (case s of
              h1 # h2 # s' \<Rightarrow>
                ishex h1 \<and> ishex h2
                \<and> \<not> (mode = encodeHost \<and> unhex h1 < 8 \<and> [h1, h2] \<noteq> ''25'')
                \<and> \<not> (mode = encodeZone \<and> [h1, h2] \<noteq> ''25''
                       \<and> char_of (unhex h1 * 16 + unhex h2) \<noteq> CHR '' ''
                       \<and> hostShouldEscape (char_of (unhex h1 * 16 + unhex h2)))
                \<and> unescapeValid mode s'
            | _ \<Rightarrow> False)
      else \<not> ((mode = encodeHost \<or> mode = encodeZone) \<and> (of_char c :: nat) < 128
               \<and> hostShouldEscape c)
           \<and> unescapeValid mode s)"

text \<open>The decoding loop of \<open>unescape\<close> (no mode of \<open>Parse\<close> turns \<open>+\<close> into a space).\<close>

fun unescapeBytes :: "string \<Rightarrow> string" where
  "unescapeBytes (c # h1 # h2 # s) =
     (if c = CHR ''%'' then char_of (unhex h1 * 16 + unhex h2) # unescapeBytes s
      else c # unescapeBytes (h1 # h2 # s))"
| "unescapeBytes (c # s) = c # unescapeBytes s"
| "unescapeBytes [] = []"

definition unescape :: "string \<Rightarrow> encoding \<Rightarrow> string option" where
  "unescape s mode = (if unescapeValid mode s then Some (unescapeBytes s) else None)"

text \<open>\<open>validOptionalPort\<close>: empty, or a colon followed by digits only.\<close>

definition validOptionalPort :: "string \<Rightarrow> bool" where
  "validOptionalPort port =
     (case port of [] \<Rightarrow> True | c # ds \<Rightarrow> c = CHR '':'' \<and> list_all isDigit ds)"

text \<open>Index of the last, and of the first, occurrence of a byte (\<open>LastIndex\<close>, \<open>Index\<close>).\<close>

definition LastIndexByte :: "string \<Rightarrow> char \<Rightarrow> nat option" where
  "LastIndexByte s c =
     (if c \<in> set s then Some (length s - 1 - length (takeWhile (\<lambda>d. d \<noteq> c) (rev s))) else None)"

fun IndexString :: "string \<Rightarrow> string \<Rightarrow> nat option" where
  "IndexString [] sub = (if sub = [] then Some 0 else None)"
| "IndexString (c # s) sub =
     (if prefix sub (c # s) then Some 0 else map_option Suc (IndexString s sub))"

text \<open>
  \<open>parseHost\<close> of Go 1.21, the version the README names. Later toolchains treat a host that
  holds a bracket differently (they accept an IPv6 address only between the brackets), so
  that treatment is a parameter of the model below, and this function is its value for
  Go 1.21. All toolchains agree on a host without a bracket.
\<close>

definition parseHost121 :: "string \<Rightarrow> string option" where
  "parseHost121 host =
     (if prefix ''['' host
      then (case LastIndexByte host (CHR '']'') of
              None \<Rightarrow> None
            | Some i \<Rightarrow>
                if \<not> validOptionalPort (drop (Suc i) host) then None
                else (case IndexString (take i host) ''%25'' of
                        Some zone \<Rightarrow>
                          (case unescape (take zone host) encodeHost of
                             None \<Rightarrow> None
                           | Some host1 \<Rightarrow>
                          (case unescape (drop zone (take i host)) encodeZone of
                             None \<Rightarrow> None
                           | Some host2 \<Rightarrow>
                          (case unescape (drop i host) encodeHost of
                             None \<Rightarrow> None
                           | Some host3 \<Rightarrow> Some (host1 @ host2 @ host3))))
                      | None \<Rightarrow> unescape host encodeHost))
      else (case LastIndexByte host (CHR '':'') of
              Some i \<Rightarrow>
                if \<not> validOptionalPort (drop i host) then None else unescape host encodeHost
            | None \<Rightarrow> unescape host encodeHost))"

text \<open>
  \<open>parseHost\<close>: a host that holds a bracket is parsed as the toolchain does, a host without
  one must have a valid port, if any, and must unescape.
\<close>

definition parseHost :: "(string \<Rightarrow> string option) \<Rightarrow> string \<Rightarrow> string option" where
  "parseHost bracketHost host =
     (if CHR ''['' \<in> set host \<or> CHR '']'' \<in> set host then bracketHost host
      else (case LastIndexByte host (CHR '':'') of
              Some i \<Rightarrow>
                if \<not> validOptionalPort (drop i host) then None else unescape host encodeHost
            | None \<Rightarrow> unescape host encodeHost))"

definition validUserinfo :: "string \<Rightarrow> bool" where
  \<open>validUserinfo s =
     list_all (\<lambda>r. isAlpha r \<or> isDigit r \<or> r \<in> set (''-._:~!$&()*+,;=%@'' @ [CHR 0x27])) s\<close>

text \<open>
  \<open>parseAuthority\<close>, for the host only: the user information before the last \<open>@\<close> must be
  valid and must unescape, but its value is not kept here.
\<close>

definition parseAuthority :: "(string \<Rightarrow> string option) \<Rightarrow> string \<Rightarrow> string option" where
  "parseAuthority bracketHost authority =
     (case LastIndexByte authority (CHR ''@'') of
        None \<Rightarrow> parseHost bracketHost authority
      | Some i \<Rightarrow>
          (case parseHost bracketHost (drop (Suc i) authority) of
             None \<Rightarrow> None
           | Some host \<Rightarrow>
               (let userinfo = take i authority
                in if \<not> validUserinfo userinfo then None
                   else if \<not> Contains userinfo '':''
                        then (case unescape userinfo encodeUserPassword of
                                None \<Rightarrow> None | Some u \<Rightarrow> Some host)
                        else (case Cut userinfo (CHR '':'') of
                                (username, password, found) \<Rightarrow>
                                  (case unescape username encodeUserPassword of
                                     None \<Rightarrow> None
                                   | Some u \<Rightarrow>
                                       (case unescape password encodeUserPassword of
                                          None \<Rightarrow> None | Some p \<Rightarrow> Some host))))))"

text \<open>\<open>setPath\<close>: the path is the unescaped text.\<close>

definition setPath :: "URL \<Rightarrow> string \<Rightarrow> URL option" where
  "setPath u p = (case unescape p encodePath of None \<Rightarrow> None | Some path \<Rightarrow> Some (u\<lparr>Path := path\<rparr>))"

text \<open>The unexported \<open>parse(rawURL, viaRequest)\<close> with \<open>viaRequest = false\<close>.\<close>

definition parse :: "(string \<Rightarrow> string option) \<Rightarrow> string \<Rightarrow> URL option" where
  "parse bracketHost rawURL =
     (if stringContainsCTLByte rawURL then None
      else if rawURL = ''*''
      then Some \<lparr>Scheme = [], Opaque = [], Host = [], Path = ''*'', RawQuery = [], Fragment = []\<rparr>
      else
        (case getScheme rawURL of
           None \<Rightarrow> None
         | Some (scheme, rest0) \<Rightarrow>
             (let scheme = ToLower scheme;
                  (rest, rawQuery) =
                     (if HasSuffix rest0 ''?'' \<and> count_list rest0 (CHR ''?'') = 1
                      then (butlast rest0, [])
                      else (case Cut rest0 (CHR ''?'') of (b, a, found) \<Rightarrow> (b, a)));
                  u = \<lparr>Scheme = scheme, Opaque = [], Host = [], Path = [], RawQuery = rawQuery,
                       Fragment = []\<rparr>
              in if \<not> prefix ''/'' rest \<and> scheme \<noteq> [] then Some (u\<lparr>Opaque := rest\<rparr>)
                 else if \<not> prefix ''/'' rest \<and> Contains (fst (Cut rest (CHR ''/''))) '':'' then None
                 else if (scheme \<noteq> [] \<or> \<not> prefix ''///'' rest) \<and> prefix ''//'' rest
                 then (let authority0 = drop 2 rest;
                           authority = takeWhile (\<lambda>c. c \<noteq> CHR ''/'') authority0;
                           rest' = dropWhile (\<lambda>c. c \<noteq> CHR ''/'') authority0
                       in case parseAuthority bracketHost authority of
                            None \<Rightarrow> None
                          | Some host \<Rightarrow> setPath (u\<lparr>Host := host\<rparr>) rest')
                 else setPath u rest)))"

text \<open>\<open>url.Parse\<close> for a given treatment of bracketed hosts: \<open>None\<close> is an error.\<close>

definition url_ParseFor :: "(string \<Rightarrow> string option) \<Rightarrow> string \<Rightarrow> URL option" where
  "url_ParseFor bracketHost rawURL =
     (case Cut rawURL (CHR ''#'') of
        (u, frag, found) \<Rightarrow>
          (case parse bracketHost u of
             None \<Rightarrow> None
           | Some url \<Rightarrow>
               if frag = [] then Some url
               else (case unescape frag encodeFragment of
                       None \<Rightarrow> None
                     | Some f \<Rightarrow> Some (url\<lparr>Fragment := f\<rparr>))))"

text \<open>\<open>url.Parse\<close> of Go 1.21.\<close>

definition url_Parse :: "string \<Rightarrow> URL option" where
  "url_Parse rawURL = url_ParseFor parseHost121 rawURL"

section \<open>Concrete inputs\<close>

text \<open>A content image of the trusted CDN, without a dimension token.\<close>

definition contentImage :: string where
  "contentImage = ''https://scontent.cdninstagram.com/v/t51/photo.jpg''"

text \<open>Scenario A of the specification: a post URL with a tracking parameter.\<close>

definition scenarioA :: string where
  "scenarioA = ''https://www.threads.net/@alice/post/Cabc123?hl=en''"

text \<open>The same post with the host written in upper case.\<close>

definition upperCaseHost :: string where
  "upperCaseHost = ''https://WWW.THREADS.NET/@alice/post/Cabc123''"

text \<open>A post path followed by further segments.\<close>

definition trailingSegments :: string where
  "trailingSegments = ''https://www.threads.net/@alice/post/Cabc123/extra/segments''"

text \<open>A post path followed by a percent-encoded question mark and a parameter.\<close>

definition escapedQuery :: string where
  "escapedQuery = ''https://www.threads.net/@alice/post/Cabc123/%3Fhl=en''"

text \<open>A CDN URL that holds an image suffix and ends in the video suffix \<open>.mkv\<close>.\<close>

definition imageNamedMkv :: string where
  "imageNamedMkv = ''https://scontent.cdninstagram.com/v/t51/photo.jpg.mkv''"

text \<open>
  Scenario D of the specification: markup with an HD field, whose URL is written with the JSON
  escapes for \<open>/\<close> and \<open>&\<close>, and a duration field of 30000 ms.
\<close>

definition rawHdURL :: string where
  "rawHdURL = ''https:'' @ [CHR 0x5C] @ ''/'' @ [CHR 0x5C] @ ''/video.fbcdn.net''
       @ [CHR 0x5C] @ ''/v'' @ [CHR 0x5C] @ ''/hd.mp4?a=1'' @ [CHR 0x5C] @ ''u0026b=2''"

definition markupD :: string where
  \<open>markupD =
     ''{"browser_native_hd_url":"'' @ rawHdURL @ ''","playable_duration_in_ms":30000}''\<close>

text \<open>Markup with the same two fields after an earlier duration field of 5000 ms.\<close>

definition markupTwoDurations :: string where
  \<open>markupTwoDurations =
     ''{"playable_duration_in_ms":5000,"browser_native_hd_url":"https://video.fbcdn.net/v/hd.mp4",''
       @ ''"playable_duration_in_ms":30000}''\<close>

text \<open>A page on which no selector matches an element, with the given markup.\<close>

definition markupPage :: "string \<Rightarrow> Page" where
  "markupPage html = \<lparr>elements = (\<lambda>selector. Some []), HTML = Some html\<rparr>"

text \<open>A page whose only element is one \<open>img\<close> with the given \<open>src\<close>.\<close>

definition imgElement :: "string \<Rightarrow> Element" where
  "imgElement u = \<lparr>attrs = [(''src'', u)], sources = Some [], currentSrc = Some []\<rparr>"

definition imgMarkup :: "string \<Rightarrow> string" where
  \<open>imgMarkup u = ''<html><head></head><body><img src="'' @ u @ ''"></body></html>''\<close>

definition imgPage :: "string \<Rightarrow> Page" where
  "imgPage u =
     \<lparr>elements = (\<lambda>selector. if selector = ''img'' then Some [imgElement u] else Some []),
      HTML = Some (imgMarkup u)\<rparr>"

text \<open>A content image with the token \<open>1080x1080\<close>, and a profile picture, both of the CDN.\<close>

definition hdImage :: string where
  "hdImage = ''https://scontent.cdninstagram.com/v/t51/1080x1080/photo.jpg''"

definition profileImage :: string where
  "profileImage = ''https://scontent.cdninstagram.com/v/t51/profile_pic.jpg''"

text \<open>
  Markup in which the text \<open>browser_native_hd_url":\<close> of another key comes directly before
  the HD field, so that the opening quote of the HD key closes nothing and opens a value.
\<close>

definition markupShadowedField :: string where
  \<open>markupShadowedField =
     ''{"alt_browser_native_hd_url":"browser_native_hd_url":"https://media.example/v/hd.mp4",''
       @ ''"playable_duration_in_ms":30000}''\<close>

section \<open>The shape of a post path, in the words of the specification\<close>

text \<open>
  The handle is one or more word, dot or hyphen characters, the post identifier one or more
  word or hyphen characters. \<open>postPathPrefix\<close> says that a path begins with
  \<open>/@handle/post/id\<close>; what follows the identifier is free.
\<close>

definition handleChar :: "char \<Rightarrow> bool" where
  "handleChar = cls_mem (In [PerlW, Ch (CHR ''.''), Ch (CHR ''-'')])"

definition postIdChar :: "char \<Rightarrow> bool" where
  "postIdChar = cls_mem (In [PerlW, Ch (CHR ''-'')])"

definition postPathPrefix :: "string \<Rightarrow> bool" where
  "postPathPrefix path =
     (\<exists>handle postId rest.
        path = ''/@'' @ handle @ ''/post/'' @ postId @ rest
        \<and> handle \<noteq> [] \<and> list_all handleChar handle
        \<and> postId \<noteq> [] \<and> list_all postIdChar postId)"

text \<open>
  A byte that \<open>url.Parse\<close> reads back as itself inside a path: no \<open>?\<close>, \<open>#\<close> or \<open>%\<close> and no
  control byte.
\<close>

definition cleanPathByte :: "char \<Rightarrow> bool" where
  "cleanPathByte c = (c \<noteq> CHR ''?'' \<and> c \<noteq> CHR ''#'' \<and> c \<noteq> CHR ''%''
                      \<and> 32 \<le> (of_char c :: nat) \<and> (of_char c :: nat) \<noteq> 127)"

section \<open>Decoding the two escapes, in the words of the specification\<close>

text \<open>
  The specification describes the unescaping of a captured reference as: \<open>\u0026\<close> decoded
  to \<open>&\<close> and \<open>\/\<close> decoded to \<open>/\<close>. \<open>decodeEscapes\<close> reads the text once from the left, replaces
  each of the two escapes where it stands, and copies every other byte. It is written from
  these words, not from the code; the code's own step is \<open>unescapeURL\<close>.
\<close>

fun decodeEscapes :: "string \<Rightarrow> string" where
  "decodeEscapes [] = []"
| "decodeEscapes (c # s) =
     (if prefix [CHR 0x5C, CHR ''u'', CHR ''0'', CHR ''0'', CHR ''2'', CHR ''6''] (c # s)
      then CHR ''&'' # decodeEscapes (drop 5 s)
      else if prefix [CHR 0x5C, CHR ''/''] (c # s)
      then CHR ''/'' # decodeEscapes (drop 1 s)
      else c # decodeEscapes s)"

section \<open>Facts about substring search\<close>

lemma Contains_sublist: "Contains s sub \<longleftrightarrow> sublist sub s"
  by (induction s) (auto simp: sublist_Cons_right)

section \<open>The two predicates exclude each other\<close>

text \<open>
  Claim C8. No URL string is accepted by both \<open>isValidVideoURL\<close> and \<open>isValidImageURL\<close>:
  the image predicate accepts only a URL that contains one of \<open>.jpg\<close>, \<open>.jpeg\<close>, \<open>.png\<close>,
  \<open>.webp\<close>, and the video predicate rejects every URL that contains one of them.
\<close>

theorem video_image_exclusive:
  "\<not> (isValidVideoURL url \<and> isValidImageURL url)
   \<and> (isValidImageURL url \<longrightarrow> Contains url ''.jpg'' \<or> Contains url ''.jpeg''
         \<or> Contains url ''.png'' \<or> Contains url ''.webp'')
   \<and> (Contains url ''.jpg'' \<or> Contains url ''.jpeg'' \<or> Contains url ''.png''
         \<or> Contains url ''.webp'' \<longrightarrow> \<not> isValidVideoURL url)"
  unfolding isValidVideoURL_def isValidImageURL_def hasImageExtension_def
  by (simp split: if_splits)

text \<open>The image predicate accepts \<open>contentImage\<close>, which contains \<open>.jpg\<close>; the video predicate rejects it.\<close>

theorem video_image_exclusive_witness:
  "isValidImageURL contentImage \<and> Contains contentImage ''.jpg'' \<and> \<not> isValidVideoURL contentImage"
proof -
  have a: "isValidImageURL contentImage" by code_simp
  from video_image_exclusive [of contentImage] a have "\<not> isValidVideoURL contentImage" by blast
  moreover have "Contains contentImage ''.jpg''" by code_simp
  ultimately show ?thesis using a by blast
qed

section \<open>The range of the score\<close>

lemma scoreImageURL_valid_range:
  "isValidImageURL url \<Longrightarrow> 50 \<le> scoreImageURL url \<and> scoreImageURL url \<le> 125"
  by (simp add: scoreImageURL_def Let_def)

lemma scoreImageURL_zero_iff: "scoreImageURL url = 0 \<longleftrightarrow> \<not> isValidImageURL url"
  by (simp add: scoreImageURL_def Let_def)

text \<open>
  Claim C9. \<open>scoreImageURL\<close> returns 0 exactly when \<open>isValidImageURL\<close> is false, and otherwise
  a value from 50 to 125, never one strictly between 0 and 50. A valid image URL with none
  of the tokens \<open>1080x1080\<close>, \<open>720x720\<close>, \<open>640x640\<close>, \<open>full_res\<close>, \<open>original\<close> scores exactly 50,
  which does not exceed the floor \<open>bestScore > 50\<close> of the DOM image strategy: a page whose
  only \<open>img\<close> has that URL yields no result from that strategy.
\<close>

theorem score_range:
  "(scoreImageURL url = 0 \<longleftrightarrow> \<not> isValidImageURL url)
   \<and> (isValidImageURL url \<longrightarrow> 50 \<le> scoreImageURL url \<and> scoreImageURL url \<le> 125)
   \<and> \<not> (0 < scoreImageURL url \<and> scoreImageURL url < 50)
   \<and> (isValidImageURL url \<and> \<not> Contains url ''1080x1080'' \<and> \<not> Contains url ''720x720''
         \<and> \<not> Contains url ''640x640'' \<and> \<not> Contains url ''full_res'' \<and> \<not> Contains url ''original''
       \<longrightarrow> scoreImageURL url = 50 \<and> \<not> 50 < scoreImageURL url
           \<and> (\<forall>page img. elements page ''img'' = Some [img]
                  \<and> attribute (attrs img) ''src'' = Some url
                 \<longrightarrow> extractFromDOMElements page ''image'' = None))"
proof -
  have 1: "scoreImageURL url = 0 \<longleftrightarrow> \<not> isValidImageURL url"
    by (rule scoreImageURL_zero_iff)
  have 2: "isValidImageURL url \<longrightarrow> 50 \<le> scoreImageURL url \<and> scoreImageURL url \<le> 125"
    using scoreImageURL_valid_range by blast
  have 3: "\<not> (0 < scoreImageURL url \<and> scoreImageURL url < 50)"
    using 1 2 by (cases "isValidImageURL url") auto
  have 4: "scoreImageURL url = 50"
    if "isValidImageURL url" "\<not> Contains url ''1080x1080''" "\<not> Contains url ''720x720''"
       "\<not> Contains url ''640x640''" "\<not> Contains url ''full_res''" "\<not> Contains url ''original''"
    using that by (simp add: scoreImageURL_def Let_def)
  have 5: "extractFromDOMElements page ''image'' = None"
    if "scoreImageURL url = 50" "elements page ''img'' = Some [img]"
       "attribute (attrs img) ''src'' = Some url"
    for page img
    using that by (simp add: extractFromDOMElements_def)
  show ?thesis using 1 2 3 4 5 by (intro conjI impI allI) auto
qed

text \<open>\<open>contentImage\<close> is valid, has none of the tokens and scores 50.\<close>

theorem score_range_witness:
  "isValidImageURL contentImage \<and> \<not> Contains contentImage ''1080x1080''
   \<and> \<not> Contains contentImage ''720x720'' \<and> \<not> Contains contentImage ''640x640''
   \<and> \<not> Contains contentImage ''full_res'' \<and> \<not> Contains contentImage ''original''
   \<and> scoreImageURL contentImage = 50 \<and> scoreImageURL contentImage \<noteq> 0"
proof -
  have h: "isValidImageURL contentImage \<and> \<not> Contains contentImage ''1080x1080''
     \<and> \<not> Contains contentImage ''720x720'' \<and> \<not> Contains contentImage ''640x640''
     \<and> \<not> Contains contentImage ''full_res'' \<and> \<not> Contains contentImage ''original''"
    by code_simp
  from score_range [of contentImage] h
  have "scoreImageURL contentImage = 50 \<and> scoreImageURL contentImage \<noteq> 0" by simp
  with h show ?thesis by blast
qed

section \<open>The unescaping step decodes the two escapes\<close>

lemma ReplaceAll_miss:
  "\<not> prefix old (c # s) \<Longrightarrow> ReplaceAll (c # s) old new = c # ReplaceAll s old new"
  by simp

lemma ReplaceAll_ampersand_slash:
  "prefix ''/'' (ReplaceAll s [CHR 0x5C, CHR ''u'', CHR ''0'', CHR ''0'', CHR ''2'', CHR ''6''] ''&'')
     \<longleftrightarrow> prefix ''/'' s"
  by (cases s) auto

text \<open>
  The two passes of \<open>unescapeURL\<close> decode as the one pass of \<open>decodeEscapes\<close>: the first pass
  writes \<open>&\<close>, which is no part of the second escape, and removes no byte between a backslash
  and a slash.
\<close>

lemma unescapeURL_decodeEscapes: "unescapeURL v = decodeEscapes v"
proof (induction v rule: decodeEscapes.induct)
  case 1
  show ?case by (simp add: unescapeURL_def)
next
  case (2 c s)
  let ?u = "[CHR 0x5C, CHR ''u'', CHR ''0'', CHR ''0'', CHR ''2'', CHR ''6'']"
  let ?s = "[CHR 0x5C, CHR ''/'']"
  consider (amp) "prefix ?u (c # s)"
    | (slash) "\<not> prefix ?u (c # s)" "prefix ?s (c # s)"
    | (other) "\<not> prefix ?u (c # s)" "\<not> prefix ?s (c # s)"
    by blast
  then show ?case
  proof cases
    case amp
    then obtain t where t: "c = CHR 0x5C" "s = ''u0026'' @ t" by (auto simp: prefix_Cons prefix_def)
    have "unescapeURL (c # s) = CHR ''&'' # unescapeURL t"
      unfolding t by (simp add: unescapeURL_def)
    then show ?thesis using amp 2(1) t by simp
  next
    case slash
    then obtain t where t: "c = CHR 0x5C" "s = CHR ''/'' # t"
      by (auto simp: prefix_Cons prefix_def)
    have "unescapeURL (c # s) = CHR ''/'' # unescapeURL t"
      unfolding t by (simp add: unescapeURL_def)
    then show ?thesis using slash 2(2) t by simp
  next
    case other
    have 1: "ReplaceAll (c # s) ?u ''&'' = c # ReplaceAll s ?u ''&''"
      using other(1) by (rule ReplaceAll_miss)
    have "\<not> prefix ?s (c # ReplaceAll s ?u ''&'')"
      using other(2) ReplaceAll_ampersand_slash [of s] by (simp add: prefix_Cons)
    then have "ReplaceAll (c # ReplaceAll s ?u ''&'') ?s ''/''
                 = c # ReplaceAll (ReplaceAll s ?u ''&'') ?s ''/''"
      by (rule ReplaceAll_miss)
    then have "unescapeURL (c # s) = c # unescapeURL s"
      unfolding unescapeURL_def 1 .
    moreover have "decodeEscapes (c # s) = c # decodeEscapes s"
      using other by (simp only: decodeEscapes.simps if_False)
    moreover have "unescapeURL s = decodeEscapes s"
      using other by (rule 2(3))
    ultimately show ?thesis by (simp only:)
  qed
qed

section \<open>The keys of the quality map\<close>

lemma mdVideoUrls_extractVideoID [simp]: "mdVideoUrls (extractVideoID html m) = mdVideoUrls m"
  by (simp add: extractVideoID_def split: option.splits)

lemma mdVideoUrls_extractTitle [simp]: "mdVideoUrls (extractTitle html m) = mdVideoUrls m"
  by (simp add: extractTitle_def Let_def split: option.splits)

lemma mdVideoUrls_extractDuration [simp]: "mdVideoUrls (extractDuration html m) = mdVideoUrls m"
  by (simp add: extractDuration_def Let_def split: option.splits)

lemma mdVideoUrls_extractQuality:
  "mdVideoUrls (extractQuality key html m) k =
     (if k = key \<and> metadataCapture key html \<noteq> None
      then map_option unescapeURL (metadataCapture key html)
      else mdVideoUrls m k)"
  by (simp add: extractQuality_def split: option.splits)

lemma mdVideoUrls_extractVideoMetadata:
  "mdVideoUrls (extractVideoMetadata html) k =
     (if k \<in> {''browser_hd'', ''browser_sd'', ''hd_src'', ''sd_src'', ''playable_url''}
      then map_option unescapeURL (metadataCapture k html) else None)"
  unfolding extractVideoMetadata_def Let_def
  by (simp add: mdVideoUrls_extractQuality emptyMetadata_def)

text \<open>
  Claim C10. For every markup text, the quality map that \<open>extractVideoMetadata\<close> returns has
  keys among \<open>browser_hd\<close>, \<open>browser_sd\<close>, \<open>hd_src\<close>, \<open>sd_src\<close>, \<open>playable_url\<close> only; no
  dash-manifest key is produced; and each key is bound, when its one pattern matches, to the
  capture of the first match of that pattern with \<open>\u0026\<close> decoded to \<open>&\<close> and \<open>\/\<close> decoded
  to \<open>/\<close>, and is absent otherwise. The result of the source-markup strategy carries this
  very map.
\<close>

theorem quality_map_keys:
  \<open>dom (mdVideoUrls (extractVideoMetadata html))
     \<subseteq> {''browser_hd'', ''browser_sd'', ''hd_src'', ''sd_src'', ''playable_url''}
   \<and> mdVideoUrls (extractVideoMetadata html) ''dash_manifest'' = None
   \<and> mdVideoUrls (extractVideoMetadata html) ''browser_hd'' =
       map_option decodeEscapes
         (FindStringSubmatch1 [L ''"browser_native_hd_url":"'', GO, Pl notQuote, GC, L ''"''] html)
   \<and> mdVideoUrls (extractVideoMetadata html) ''browser_sd'' =
       map_option decodeEscapes
         (FindStringSubmatch1 [L ''"browser_native_sd_url":"'', GO, Pl notQuote, GC, L ''"''] html)
   \<and> mdVideoUrls (extractVideoMetadata html) ''hd_src'' =
       map_option decodeEscapes
         (FindStringSubmatch1 [L ''"hd_src":"'', GO, Pl notQuote, GC, L ''"''] html)
   \<and> mdVideoUrls (extractVideoMetadata html) ''sd_src'' =
       map_option decodeEscapes
         (FindStringSubmatch1 [L ''"sd_src":"'', GO, Pl notQuote, GC, L ''"''] html)
   \<and> mdVideoUrls (extractVideoMetadata html) ''playable_url'' =
       map_option decodeEscapes
         (FindStringSubmatch1 [L ''"playable_url":"'', GO, Pl notQuote, GC, L ''"''] html)
   \<and> VideoUrls (videoResponse url html) = mdVideoUrls (extractVideoMetadata html)\<close>
proof -
  have u: "unescapeURL = decodeEscapes"
    by (rule ext) (rule unescapeURL_decodeEscapes)
  have d: "dom (mdVideoUrls (extractVideoMetadata html))
     \<subseteq> {''browser_hd'', ''browser_sd'', ''hd_src'', ''sd_src'', ''playable_url''}"
  proof
    fix k assume "k \<in> dom (mdVideoUrls (extractVideoMetadata html))"
    then have "mdVideoUrls (extractVideoMetadata html) k \<noteq> None" by auto
    then show "k \<in> {''browser_hd'', ''browser_sd'', ''hd_src'', ''sd_src'', ''playable_url''}"
      unfolding mdVideoUrls_extractVideoMetadata by (simp split: if_splits)
  qed
  have n: "mdVideoUrls (extractVideoMetadata html) ''dash_manifest'' = None"
    unfolding mdVideoUrls_extractVideoMetadata by simp
  have k: "mdVideoUrls (extractVideoMetadata html) ''browser_hd'' =
       map_option decodeEscapes (metadataCapture ''browser_hd'' html)"
      "mdVideoUrls (extractVideoMetadata html) ''browser_sd'' =
       map_option decodeEscapes (metadataCapture ''browser_sd'' html)"
      "mdVideoUrls (extractVideoMetadata html) ''hd_src'' =
       map_option decodeEscapes (metadataCapture ''hd_src'' html)"
      "mdVideoUrls (extractVideoMetadata html) ''sd_src'' =
       map_option decodeEscapes (metadataCapture ''sd_src'' html)"
      "mdVideoUrls (extractVideoMetadata html) ''playable_url'' =
       map_option decodeEscapes (metadataCapture ''playable_url'' html)"
    unfolding mdVideoUrls_extractVideoMetadata u by simp_all
  have v: "VideoUrls (videoResponse url html) = mdVideoUrls (extractVideoMetadata html)"
    by (simp add: videoResponse_def Let_def)
  show ?thesis
    using d n v k by (simp add: metadataCapture_def metadataPatterns_def)
qed

text \<open>
  On the markup of scenario D the HD pattern captures the escaped text of the field, and the
  map binds \<open>browser_hd\<close>, and no other key, to the text with its five escapes decoded.
\<close>

theorem quality_map_keys_witness:
  \<open>FindStringSubmatch1 [L ''"browser_native_hd_url":"'', GO, Pl notQuote, GC, L ''"''] markupD
     = Some rawHdURL
   \<and> decodeEscapes rawHdURL = ''https://video.fbcdn.net/v/hd.mp4?a=1&b=2''
   \<and> mdVideoUrls (extractVideoMetadata markupD) ''browser_hd''
       = Some ''https://video.fbcdn.net/v/hd.mp4?a=1&b=2''
   \<and> mdVideoUrls (extractVideoMetadata markupD) ''browser_sd'' = None
   \<and> mdVideoUrls (extractVideoMetadata markupD) ''hd_src'' = None
   \<and> mdVideoUrls (extractVideoMetadata markupD) ''sd_src'' = None
   \<and> mdVideoUrls (extractVideoMetadata markupD) ''playable_url'' = None
   \<and> mdVideoUrls (extractVideoMetadata markupD) ''dash_manifest'' = None\<close>
proof -
  have c: \<open>FindStringSubmatch1 [L ''"browser_native_hd_url":"'', GO, Pl notQuote, GC, L ''"''] markupD
             = Some rawHdURL\<close>
    by code_simp
  have e: "decodeEscapes rawHdURL = ''https://video.fbcdn.net/v/hd.mp4?a=1&b=2''"
    by code_simp
  have n: \<open>FindStringSubmatch1 [L ''"browser_native_sd_url":"'', GO, Pl notQuote, GC, L ''"''] markupD
             = None\<close>
          \<open>FindStringSubmatch1 [L ''"hd_src":"'', GO, Pl notQuote, GC, L ''"''] markupD = None\<close>
          \<open>FindStringSubmatch1 [L ''"sd_src":"'', GO, Pl notQuote, GC, L ''"''] markupD = None\<close>
          \<open>FindStringSubmatch1 [L ''"playable_url":"'', GO, Pl notQuote, GC, L ''"''] markupD = None\<close>
    by code_simp+
  show ?thesis
    using quality_map_keys [of markupD] c e n by simp
qed

section \<open>The score and the dimension tokens\<close>

lemma prefix_avoiding:
  assumes "prefix k (t @ post)" "set k \<inter> set t = {}" "t \<noteq> []"
  shows "k = []"
proof (cases k)
  case Nil
  then show ?thesis .
next
  case (Cons x xs)
  obtain y ys where t: "t = y # ys" using assms(3) by (cases t) auto
  from assms(1) Cons t have "x = y" by simp
  then have "x \<in> set k \<inter> set t" using Cons t by simp
  with assms(2) show ?thesis by simp
qed

lemma suffix_avoiding:
  assumes "suffix k (pre @ t)" "set k \<inter> set t = {}" "t \<noteq> []"
  shows "k = []"
proof -
  have "prefix (rev k) (rev t @ rev pre)"
    using assms(1) by (simp add: suffix_to_prefix)
  moreover have "set (rev k) \<inter> set (rev t) = {}" using assms(2) by simp
  ultimately have "rev k = []" using assms(3) prefix_avoiding [of "rev k" "rev t" "rev pre"] by simp
  then show ?thesis by simp
qed

lemma sublist_avoiding_middle:
  assumes "sublist k (pre @ t @ post)" "set k \<inter> set t = {}" "t \<noteq> []"
  shows "sublist k pre \<or> sublist k post"
proof -
  from assms(1) consider "sublist k pre" | "sublist k (t @ post)"
    | k1 k2 where "k = k1 @ k2" "suffix k1 pre" "prefix k2 (t @ post)"
    unfolding sublist_append [of k pre "t @ post"] by blast
  then show ?thesis
  proof cases
    case 1
    then show ?thesis by simp
  next
    case 2
    then consider "sublist k t" | "sublist k post"
      | k1 k2 where "k = k1 @ k2" "suffix k1 t" "prefix k2 post"
      unfolding sublist_append [of k t post] by blast
    then show ?thesis
    proof cases
      case 1
      then have "set k \<subseteq> set t" by (rule set_mono_sublist)
      then have "set k \<inter> set t = set k" by (rule Int_absorb2)
      with assms(2) have "set k = {}" by simp
      then have "k = []" by simp
      then show ?thesis by simp
    next
      case 2
      then show ?thesis by simp
    next
      case 3
      have "set k1 \<inter> set t = {}" using assms(2) 3(1) by auto
      then have "k1 = []" using suffix_avoiding [of k1 "[]" t] 3(2) assms(3) by simp
      then have "prefix k post" using 3 by simp
      then show ?thesis by (simp add: prefix_imp_sublist)
    qed
  next
    case 3
    have "set k2 \<inter> set t = {}" using assms(2) 3(1) by auto
    then have "k2 = []" using prefix_avoiding [of k2 t post] 3(3) assms(3) by simp
    then have "suffix k pre" using 3 by simp
    then show ?thesis by (simp add: suffix_imp_sublist)
  qed
qed

lemma Contains_token_swap:
  assumes "Contains (pre @ t @ post) k" "set k \<inter> set t = {}" "t \<noteq> []"
  shows "Contains (pre @ t' @ post) k"
proof -
  have "sublist k pre \<or> sublist k post"
    using sublist_avoiding_middle assms by (simp add: Contains_sublist)
  then have "sublist k (pre @ t' @ post)"
    by (auto simp: sublist_append)
  then show ?thesis by (simp add: Contains_sublist)
qed

lemma Contains_middle: "Contains (pre @ t @ post) t"
  by (simp add: Contains_sublist sublist_append)

text \<open>
  Claim C7, as amended. For two URL strings that differ only in that one has \<open>1080x1080\<close>
  where the other has \<open>640x640\<close>: when the \<open>1080x1080\<close> URL is a valid image candidate and the
  \<open>640x640\<close> URL holds no \<open>1080x1080\<close> token of its own, the \<open>1080x1080\<close> URL scores strictly
  higher.
\<close>

theorem score_prefers_1080:
  assumes "isValidImageURL (pre @ ''1080x1080'' @ post)"
      and "\<not> Contains (pre @ ''640x640'' @ post) ''1080x1080''"
  shows "scoreImageURL (pre @ ''640x640'' @ post) < scoreImageURL (pre @ ''1080x1080'' @ post)"
proof -
  let ?u1 = "pre @ ''1080x1080'' @ post" and ?u2 = "pre @ ''640x640'' @ post"
  have f: "Contains ?u2 ''full_res'' \<Longrightarrow> Contains ?u1 ''full_res''"
    by (rule Contains_token_swap [where t = "''640x640''"]) simp_all
  have g: "Contains ?u2 ''original'' \<Longrightarrow> Contains ?u1 ''original''"
    by (rule Contains_token_swap [where t = "''640x640''"]) simp_all
  have c1: "Contains ?u1 ''1080x1080''" by (rule Contains_middle)
  have s1: "scoreImageURL ?u1 =
      100 + (if Contains ?u1 ''full_res'' \<or> Contains ?u1 ''original'' then 25 else 0)"
    using assms(1) c1 by (simp add: scoreImageURL_def Let_def)
  have s2: "scoreImageURL ?u2 \<le>
      80 + (if Contains ?u2 ''full_res'' \<or> Contains ?u2 ''original'' then 25 else 0)"
    using assms(2) by (simp add: scoreImageURL_def Let_def)
  have b: "(if Contains ?u2 ''full_res'' \<or> Contains ?u2 ''original'' then 25 else 0 :: int)
      \<le> (if Contains ?u1 ''full_res'' \<or> Contains ?u1 ''original'' then 25 else 0)"
    using f g by auto
  show ?thesis using s1 s2 b by linarith
qed

text \<open>The amended claim on a pair of content images of the CDN.\<close>

theorem score_prefers_1080_witness:
  "isValidImageURL (''https://scontent.cdninstagram.com/v/'' @ ''1080x1080'' @ ''/photo.jpg'')
   \<and> \<not> Contains (''https://scontent.cdninstagram.com/v/'' @ ''640x640'' @ ''/photo.jpg'') ''1080x1080''
   \<and> scoreImageURL (''https://scontent.cdninstagram.com/v/'' @ ''640x640'' @ ''/photo.jpg'')
       < scoreImageURL (''https://scontent.cdninstagram.com/v/'' @ ''1080x1080'' @ ''/photo.jpg'')"
proof -
  have h1: "isValidImageURL (''https://scontent.cdninstagram.com/v/'' @ ''1080x1080'' @ ''/photo.jpg'')"
    by code_simp
  have h2: "\<not> Contains (''https://scontent.cdninstagram.com/v/'' @ ''640x640'' @ ''/photo.jpg'') ''1080x1080''"
    by code_simp
  from score_prefers_1080 [OF h1 h2] h1 h2 show ?thesis by blast
qed

text \<open>
  The claim as stated fails on two pairs: both URLs of a pair outside the trusted CDN score 0,
  and both URLs of a pair that holds another \<open>1080x1080\<close> token score 100.
\<close>

theorem score_prefers_1080_counterexample:
  "\<not> scoreImageURL (''https://example.com/'' @ ''640x640'' @ ''.jpg'')
       < scoreImageURL (''https://example.com/'' @ ''1080x1080'' @ ''.jpg'')
   \<and> \<not> scoreImageURL (''https://scontent.cdninstagram.com/1080x1080/'' @ ''640x640'' @ ''.jpg'')
         < scoreImageURL (''https://scontent.cdninstagram.com/1080x1080/'' @ ''1080x1080'' @ ''.jpg'')"
  by code_simp

section \<open>The domain check of the normalizer\<close>

lemma Contains_trans: "Contains s t \<Longrightarrow> Contains t k \<Longrightarrow> Contains s k"
  unfolding Contains_sublist by (rule sublist_order.order_trans)

lemma validDomains_two:
  "list_ex (\<lambda>domain. Contains host domain) validDomains
     \<longleftrightarrow> Contains host ''threads.com'' \<or> Contains host ''threads.net''"
proof -
  have a: "Contains ''www.threads.com'' ''threads.com''" "Contains ''m.threads.com'' ''threads.com''"
    "Contains ''www.threads.net'' ''threads.net''" "Contains ''m.threads.net'' ''threads.net''"
    by code_simp+
  show ?thesis
    unfolding validDomains_def using a by (auto intro: Contains_trans)
qed

text \<open>
  Claim C3, as amended. For every input that \<open>url.Parse\<close> accepts, the normalizer fails with
  \<open>UntrustedDomain\<close> exactly when the host, compared byte by byte (so with the letter case as
  written), contains none of the six domains of the allow-set, whatever the path is; and the
  host contains one of the six exactly when it contains \<open>threads.com\<close> or \<open>threads.net\<close>.
\<close>

theorem domain_check:
  assumes "parseURL inputURL = Some u"
  shows "(normalizeURL parseURL inputURL = Inl UntrustedDomain
            \<longleftrightarrow> \<not> list_ex (\<lambda>domain. Contains (Host u) domain) validDomains)
         \<and> (list_ex (\<lambda>domain. Contains (Host u) domain) validDomains
            \<longleftrightarrow> Contains (Host u) ''threads.com'' \<or> Contains (Host u) ''threads.net'')"
  using assms validDomains_two [of "Host u"]
  by (simp add: normalizeURL_def normalizeParsed_def)

text \<open>Scenario A parses, its host contains \<open>threads.net\<close>, and it passes the domain check.\<close>

theorem domain_check_witness:
  "url_Parse scenarioA =
     Some \<lparr>Scheme = ''https'', Opaque = [], Host = ''www.threads.net'',
           Path = ''/@alice/post/Cabc123'', RawQuery = ''hl=en'', Fragment = []\<rparr>
   \<and> Contains ''www.threads.net'' ''threads.net''
   \<and> normalizeURL url_Parse scenarioA \<noteq> Inl UntrustedDomain"
proof -
  have p: "url_Parse scenarioA =
     Some \<lparr>Scheme = ''https'', Opaque = [], Host = ''www.threads.net'',
           Path = ''/@alice/post/Cabc123'', RawQuery = ''hl=en'', Fragment = []\<rparr>"
    by code_simp
  have c: "Contains ''www.threads.net'' ''threads.net''" by code_simp
  from domain_check [of url_Parse scenarioA, OF p] c
  have "normalizeURL url_Parse scenarioA \<noteq> Inl UntrustedDomain"
    by simp
  with p c show ?thesis by blast
qed

text \<open>
  The claim as stated fails on the host \<open>WWW.THREADS.NET\<close>: \<open>url.Parse\<close> keeps the case of the
  host, the host in lower case contains \<open>www.threads.net\<close>, and the normalizer answers
  \<open>UntrustedDomain\<close>.
\<close>

theorem domain_check_counterexample:
  "map_option Host (url_Parse upperCaseHost) = Some ''WWW.THREADS.NET''
   \<and> Contains (ToLower ''WWW.THREADS.NET'') ''www.threads.net''
   \<and> normalizeURL url_Parse upperCaseHost = Inl UntrustedDomain"
  by code_simp

section \<open>The path check of the normalizer\<close>

text \<open>An input that the normalizer rejects reaches no browser: the result does not depend on it.\<close>

lemma rejected_before_browser:
  "normalizeURL parseURL inputURL = Inl err \<Longrightarrow> extractMediaURL parseURL browser inputURL = Inl err"
  by (simp add: extractMediaURL_def)

text \<open>
  Claim C2 says that an allowed host with a path that is not exactly \<open>/@handle/post/id\<close>, with
  at most one trailing slash, fails with \<open>MalformedPostPath\<close>. The code does not do this: the
  path \<open>/@alice/post/Cabc123/extra/segments\<close> has two more segments after the post identifier,
  and the normalizer accepts it and keeps the segments in its output.
\<close>

theorem trailing_segments_accepted:
  "normalizeURL url_Parse trailingSegments
     = Inr ''https://www.threads.net/@alice/post/Cabc123/extra/segments''"
  by code_simp

section \<open>Normalizing twice\<close>

text \<open>Scenario A: the tracking parameter is removed, and the output normalizes to itself.\<close>

lemma scenarioA_normalized:
  "normalizeURL url_Parse scenarioA = Inr ''https://www.threads.net/@alice/post/Cabc123''
   \<and> normalizeURL url_Parse ''https://www.threads.net/@alice/post/Cabc123''
        = Inr ''https://www.threads.net/@alice/post/Cabc123''"
  by code_simp

text \<open>
  Claim C6 says that the normalizer returns its own output unchanged and that the output
  never carries a query string. The code does not do this on a path that goes on after the
  post identifier with a percent-encoded question mark: the output is built from the decoded
  path, so it holds \<open>?hl=en\<close>, and normalizing that output gives a different, shorter URL.
\<close>

theorem escaped_query_not_idempotent:
  "normalizeURL url_Parse escapedQuery = Inr ''https://www.threads.net/@alice/post/Cabc123/?hl=en''
   \<and> normalizeURL url_Parse ''https://www.threads.net/@alice/post/Cabc123/?hl=en''
        = Inr ''https://www.threads.net/@alice/post/Cabc123/''"
  by code_simp

section \<open>File suffixes and the two predicates\<close>

lemma HasSuffix_Contains: "HasSuffix s suf \<Longrightarrow> Contains s suf"
proof -
  assume "HasSuffix s suf"
  then have "s = take (length s - length suf) s @ suf"
    unfolding HasSuffix_def by (metis append_take_drop_id)
  then have "suffix suf s" unfolding suffix_def by blast
  then show ?thesis by (simp add: Contains_sublist)
qed

text \<open>
  What holds of the suffixes: a URL that ends in \<open>.mp4\<close>, \<open>.webm\<close> or \<open>.mov\<close> is no image
  candidate, and a URL that ends in one of the five image suffixes is no video candidate.
\<close>

lemma suffix_exclusion:
  "(HasSuffix url ''.mp4'' \<or> HasSuffix url ''.webm'' \<or> HasSuffix url ''.mov'' \<longrightarrow> \<not> isValidImageURL url)
   \<and> (HasSuffix url ''.jpg'' \<or> HasSuffix url ''.jpeg'' \<or> HasSuffix url ''.png''
        \<or> HasSuffix url ''.webp'' \<or> HasSuffix url ''.gif'' \<longrightarrow> \<not> isValidVideoURL url)"
  using HasSuffix_Contains [of url]
  unfolding isValidImageURL_def isValidVideoURL_def by auto

text \<open>
  Claim C4 says that \<open>isValidImageURL\<close> rejects every URL that ends in one of the video
  suffixes \<open>.mp4\<close>, \<open>.webm\<close>, \<open>.mov\<close>, \<open>.m4v\<close>, \<open>.avi\<close>, \<open>.mkv\<close>. The code does not do this for
  the last three: its exclusion list names \<open>.mp4\<close>, \<open>.webm\<close>, \<open>.mov\<close> and \<open>video\<close> only, so it
  accepts a CDN URL that holds \<open>.jpg\<close> and ends in \<open>.mkv\<close>.
\<close>

theorem image_accepts_mkv_suffix:
  "HasSuffix imageNamedMkv ''.mkv'' \<and> isValidImageURL imageNamedMkv"
  by code_simp

section \<open>Matches of a pattern and first matches\<close>

lemma matchseq_L_iff:
  "matchseq (L lit # its) s g c = Some r \<longleftrightarrow> (\<exists>s'. s = lit @ s' \<and> matchseq its s' g c = Some r)"
  by (auto simp: prefix_def)

lemma matchseq_St_D:
  "matchseq (St k # its) s g c = Some r \<Longrightarrow>
   \<exists>h s'. s = h @ s' \<and> list_all (cls_mem k) h \<and> matchseq its s' g c = Some r"
proof (induction s)
  case Nil
  then show ?case by simp
next
  case (Cons x xs)
  show ?case
  proof (cases "cls_mem k x \<and> matchseq (St k # its) xs g c \<noteq> None")
    case True
    then have "matchseq (St k # its) xs g c = Some r" using Cons.prems by auto
    then obtain h s' where "xs = h @ s'" "list_all (cls_mem k) h" "matchseq its s' g c = Some r"
      using Cons.IH by blast
    then have "x # xs = (x # h) @ s' \<and> list_all (cls_mem k) (x # h) \<and> matchseq its s' g c = Some r"
      using True by simp
    then show ?thesis by blast
  next
    case False
    then have "matchseq its (x # xs) g c = Some r"
      using Cons.prems by (auto split: if_splits option.splits)
    then have "x # xs = [] @ (x # xs) \<and> list_all (cls_mem k) [] \<and> matchseq its (x # xs) g c = Some r"
      by simp
    then show ?thesis by blast
  qed
qed

lemma matchseq_St_I:
  "list_all (cls_mem k) h \<Longrightarrow> matchseq its s g c \<noteq> None \<Longrightarrow>
   matchseq (St k # its) (h @ s) g c \<noteq> None"
proof (induction h)
  case Nil
  then show ?case by (cases s) (auto split: option.splits)
next
  case (Cons x h)
  then show ?case by (auto split: option.splits)
qed

lemma matchseq_Pl_D:
  "matchseq (Pl k # its) s g c = Some r \<Longrightarrow>
   \<exists>h s'. s = h @ s' \<and> h \<noteq> [] \<and> list_all (cls_mem k) h \<and> matchseq its s' g c = Some r"
proof (cases s)
  case Nil
  assume "matchseq (Pl k # its) s g c = Some r"
  then show ?thesis using Nil by simp
next
  case (Cons x xs)
  assume a: "matchseq (Pl k # its) s g c = Some r"
  then have x: "cls_mem k x" and "matchseq (St k # its) xs g c = Some r"
    using Cons by (auto split: if_splits)
  then obtain h s' where "xs = h @ s'" "list_all (cls_mem k) h" "matchseq its s' g c = Some r"
    using matchseq_St_D by blast
  then have "s = (x # h) @ s' \<and> x # h \<noteq> [] \<and> list_all (cls_mem k) (x # h)
             \<and> matchseq its s' g c = Some r"
    using Cons x by simp
  then show ?thesis by blast
qed

lemma matchseq_Pl_I:
  "h \<noteq> [] \<Longrightarrow> list_all (cls_mem k) h \<Longrightarrow> matchseq its s g c \<noteq> None \<Longrightarrow>
   matchseq (Pl k # its) (h @ s) g c \<noteq> None"
  using matchseq_St_I [of k "tl h" its s g c] by (cases h) auto

lemma matchseq_Op_last: "matchseq [Op ch] s g c \<noteq> None"
  by (cases s) auto

lemma IndexString_first:
  "IndexString s sub = Some m \<Longrightarrow> p < m \<Longrightarrow> \<not> prefix sub (drop p s)"
proof (induction s arbitrary: m p)
  case Nil
  then show ?case by (simp split: if_splits)
next
  case (Cons x s)
  from Cons.prems have np: "\<not> prefix sub (x # s)" by (auto split: if_splits)
  with Cons.prems obtain m' where m': "IndexString s sub = Some m'" "m = Suc m'"
    by (auto split: if_splits)
  show ?case
  proof (cases p)
    case 0
    then show ?thesis using np by simp
  next
    case (Suc p')
    then have "p' < m'" using Cons.prems(2) m'(2) by simp
    then show ?thesis using Cons.IH [OF m'(1)] Suc by simp
  qed
qed

lemma findFirst_here: "matchseq its s None None = Some r \<Longrightarrow> findFirst its s = Some r"
  by (cases s) simp_all

lemma findFirst_skip:
  "(\<And>p. p < n \<Longrightarrow> matchseq its (drop p s) None None = None) \<Longrightarrow> n \<le> length s \<Longrightarrow>
   findFirst its s = findFirst its (drop n s)"
proof (induction n arbitrary: s)
  case 0
  then show ?case by simp
next
  case (Suc n)
  then obtain x xs where s: "s = x # xs" by (cases s) auto
  have "matchseq its (drop 0 s) None None = None" by (rule Suc.prems(1)) simp
  then have a: "findFirst its s = findFirst its xs" using s by simp
  have "findFirst its xs = findFirst its (drop n xs)"
  proof (rule Suc.IH)
    fix p assume "p < n"
    then have "matchseq its (drop (Suc p) s) None None = None" by (intro Suc.prems(1)) simp
    then show "matchseq its (drop p xs) None None = None" using s by simp
  next
    show "n \<le> length xs" using Suc.prems(2) s by simp
  qed
  then show ?case using a s by simp
qed

lemma findAllFrom_here:
  "matchseq its s None None = Some (rest, c) \<Longrightarrow> \<exists>cs. findAllFrom its 0 s = c # cs"
  by (cases s) simp_all

lemma findAllFrom_skip:
  "(\<And>p. p < n \<Longrightarrow> matchseq its (drop p s) None None = None) \<Longrightarrow> n \<le> length s \<Longrightarrow>
   findAllFrom its 0 s = findAllFrom its 0 (drop n s)"
proof (induction n arbitrary: s)
  case 0
  then show ?case by simp
next
  case (Suc n)
  then obtain x xs where s: "s = x # xs" by (cases s) auto
  have "matchseq its (drop 0 s) None None = None" by (rule Suc.prems(1)) simp
  then have a: "findAllFrom its 0 s = findAllFrom its 0 xs" using s by simp
  have "findAllFrom its 0 xs = findAllFrom its 0 (drop n xs)"
  proof (rule Suc.IH)
    fix p assume "p < n"
    then have "matchseq its (drop (Suc p) s) None None = None" by (intro Suc.prems(1)) simp
    then show "matchseq its (drop p xs) None None = None" using s by simp
  next
    show "n \<le> length xs" using Suc.prems(2) s by simp
  qed
  then show ?case using a s by simp
qed

text \<open>
  A greedy repetition that can take all of \<open>h\<close> and no more takes all of it, when what
  follows then matches.
\<close>

lemma matchseq_St_all:
  "list_all (cls_mem k) h \<Longrightarrow> (case s of [] \<Rightarrow> True | y # ys \<Rightarrow> \<not> cls_mem k y) \<Longrightarrow>
   matchseq its s g c = Some r \<Longrightarrow> matchseq (St k # its) (h @ s) g c = Some r"
proof (induction h)
  case Nil
  then show ?case by (cases s) auto
next
  case (Cons x h)
  then show ?case by simp
qed

lemma matchseq_Pl_all:
  "h \<noteq> [] \<Longrightarrow> list_all (cls_mem k) h \<Longrightarrow> (case s of [] \<Rightarrow> True | y # ys \<Rightarrow> \<not> cls_mem k y) \<Longrightarrow>
   matchseq its s g c = Some r \<Longrightarrow> matchseq (Pl k # its) (h @ s) g c = Some r"
  using matchseq_St_all [of k "tl h" s its g c r] by (cases h) auto

lemma matchseq_L_None: "\<not> prefix lit s \<Longrightarrow> matchseq (L lit # its) s g c = None"
  by simp

lemma notQuote_all: "CHR 0x22 \<notin> set c \<Longrightarrow> list_all (cls_mem notQuote) c"
  by (induction c) (auto simp: notQuote_def)

section \<open>The source-markup strategy on markup with an HD field and a duration\<close>

lemma mdDuration_extractVideoID [simp]: "mdDuration (extractVideoID html m) = mdDuration m"
  by (simp add: extractVideoID_def split: option.splits)

lemma mdDuration_extractTitle [simp]: "mdDuration (extractTitle html m) = mdDuration m"
  by (simp add: extractTitle_def Let_def split: option.splits)

lemma mdDuration_extractQuality [simp]: "mdDuration (extractQuality key html m) = mdDuration m"
  by (simp add: extractQuality_def split: option.splits)

lemma mdDuration_extractVideoMetadata:
  "mdDuration (extractVideoMetadata html) =
     (case metadataCapture ''duration'' html of
        Some v \<Rightarrow> (case ParseInt10_64 v of Some durationMs \<Rightarrow> go_div durationMs 1000 | None \<Rightarrow> 0)
      | None \<Rightarrow> 0)"
  unfolding extractVideoMetadata_def Let_def
  by (simp add: extractDuration_def emptyMetadata_def Let_def split: option.splits)

lemma go_div_nonneg: "0 \<le> a \<Longrightarrow> 0 < b \<Longrightarrow> go_div a b = a div b"
  by (cases "a = 0") (simp_all add: go_div_def)

lemma find_list_ex: "list_ex P xs \<Longrightarrow> \<exists>x. find P xs = Some x \<and> P x"
  by (induction xs) auto


lemma drop_Suc_tl: "drop (Suc n) s = tl (drop n s)"
  by (simp add: drop_Suc tl_drop)

lemma hdField_captured:
  assumes i: \<open>IndexString html ''browser_native_hd_url":'' = Some (Suc n)\<close>
      and f: \<open>drop n html = ''"browser_native_hd_url":"'' @ c @ ''"'' @ post\<close>
      and c: \<open>c \<noteq> []\<close> \<open>CHR 0x22 \<notin> set c\<close>
  shows \<open>c \<in> set (FindAllStringSubmatch1
                     [L ''browser_native_hd_url":'', St ws, L ''"'', GO, Pl notQuote, GC, L ''"'']
                     html)\<close>
    and \<open>metadataCapture ''browser_hd'' html = Some c\<close>
proof -
  let ?P = \<open>[L ''browser_native_hd_url":'', St ws, L ''"'', GO, Pl notQuote, GC, L ''"'']\<close>
  let ?M = \<open>[L ''"browser_native_hd_url":"'', GO, Pl notQuote, GC, L ''"'']\<close>
  have q: "list_all (cls_mem notQuote) c" using c(2) by (rule notQuote_all)
  have nq: \<open>\<not> cls_mem notQuote (CHR 0x22)\<close> by (simp add: notQuote_def)
  have len: "n < length html" using f by (cases "n < length html") auto
  have t: \<open>drop (Suc n) html = ''browser_native_hd_url":"'' @ c @ ''"'' @ post\<close>
    unfolding drop_Suc_tl f by simp
  have tailm: \<open>matchseq [GC, L ''"''] (''"'' @ post) (Some (c @ ''"'' @ post)) None
                 = Some (post, Some c)\<close>
    by simp
  have pl: \<open>matchseq [Pl notQuote, GC, L ''"''] (c @ ''"'' @ post) (Some (c @ ''"'' @ post)) None
              = Some (post, Some c)\<close>
    using c(1) q nq tailm by (intro matchseq_Pl_all) simp_all
  have mP: "matchseq ?P (drop (Suc n) html) None None = Some (post, Some c)"
    unfolding t using pl by (simp add: ws_def)
  have skipP: "matchseq ?P (drop p html) None None = None" if "p < Suc n" for p
    using IndexString_first [OF i that] by simp
  have "findAllFrom ?P 0 html = findAllFrom ?P 0 (drop (Suc n) html)"
    using skipP len by (intro findAllFrom_skip) simp_all
  then obtain cs where "findAllFrom ?P 0 html = Some c # cs"
    using findAllFrom_here [OF mP] by auto
  then show "c \<in> set (FindAllStringSubmatch1 ?P html)"
    by (simp add: FindAllStringSubmatch1_def)
  have mM: "matchseq ?M (drop n html) None None = Some (post, Some c)"
    unfolding f using pl by simp
  have skipM: "matchseq ?M (drop p html) None None = None" if "p < n" for p
  proof -
    have np: \<open>\<not> prefix ''browser_native_hd_url":'' (drop (Suc p) html)\<close>
      using IndexString_first [OF i, of "Suc p"] \<open>p < n\<close> by simp
    have \<open>\<not> prefix ''"browser_native_hd_url":"'' (drop p html)\<close>
    proof
      assume \<open>prefix ''"browser_native_hd_url":"'' (drop p html)\<close>
      then obtain r where \<open>drop p html = ''"browser_native_hd_url":"'' @ r\<close>
        by (auto simp: prefix_def)
      then have \<open>drop (Suc p) html = ''browser_native_hd_url":'' @ ''"'' @ r\<close>
        unfolding drop_Suc_tl by simp
      then show False using np by simp
    qed
    then show ?thesis by (rule matchseq_L_None)
  qed
  have "findFirst ?M html = findFirst ?M (drop n html)"
    using skipM len by (intro findFirst_skip) simp_all
  then have "findFirst ?M html = Some (post, Some c)"
    using findFirst_here [OF mM] by simp
  then show \<open>metadataCapture ''browser_hd'' html = Some c\<close>
    by (simp add: metadataCapture_def metadataPatterns_def FindStringSubmatch1_def)
qed

lemma durationField_captured:
  assumes i: \<open>IndexString html ''"playable_duration_in_ms":'' = Some m\<close>
      and f: \<open>drop m html = ''"playable_duration_in_ms":30000'' @ dpost\<close>
      and d: \<open>case dpost of [] \<Rightarrow> True | d # ds \<Rightarrow> \<not> isDigit d\<close>
  shows \<open>metadataCapture ''duration'' html = Some ''30000''\<close>
proof -
  let ?M = \<open>[L ''"playable_duration_in_ms":'', GO, Pl digit, GC]\<close>
  have len: "m \<le> length html" using f by (cases "m \<le> length html") auto
  have dg: "list_all (cls_mem digit) ''30000''" by (simp add: digit_def)
  have nd: "case dpost of [] \<Rightarrow> True | y # ys \<Rightarrow> \<not> cls_mem digit y"
    using d by (cases dpost) (simp_all add: digit_def isDigit_def)
  have tailm: "matchseq [GC] dpost (Some (''30000'' @ dpost)) None = Some (dpost, Some ''30000'')"
    by simp
  have pl: "matchseq [Pl digit, GC] (''30000'' @ dpost) (Some (''30000'' @ dpost)) None
              = Some (dpost, Some ''30000'')"
    using dg nd tailm by (intro matchseq_Pl_all) simp_all
  have mM: "matchseq ?M (drop m html) None None = Some (dpost, Some ''30000'')"
    unfolding f using pl by simp
  have skipM: "matchseq ?M (drop p html) None None = None" if "p < m" for p
    using IndexString_first [OF i that] by simp
  have "findFirst ?M html = findFirst ?M (drop m html)"
    using skipM len by (intro findFirst_skip) simp_all
  then have "findFirst ?M html = Some (dpost, Some ''30000'')"
    using findFirst_here [OF mM] by simp
  then show ?thesis
    by (simp add: metadataCapture_def metadataPatterns_def FindStringSubmatch1_def)
qed

lemma hdPattern_in_videoPatterns:
  \<open>[L ''browser_native_hd_url":'', St ws, L ''"'', GO, Pl notQuote, GC, L ''"''] \<in> set videoPatterns\<close>
  by (simp add: videoPatterns_def)

lemma videoCandidates_member:
  "pattern \<in> set videoPatterns \<Longrightarrow> c \<in> set (FindAllStringSubmatch1 pattern html) \<Longrightarrow>
   unescapeURL c \<in> set (videoCandidates html)"
  unfolding videoCandidates_def by auto

text \<open>
  Claim C5, as amended. Let no DOM video element match. Let the first occurrence of the text
  \<open>browser_native_hd_url":\<close> in the markup be the key of a field \<open>"browser_native_hd_url":"c"\<close>
  whose value \<open>c\<close> is not empty, holds no double quote, and is a valid video URL once \<open>\u0026\<close>
  is decoded to \<open>&\<close> and \<open>\/\<close> to \<open>/\<close>. Let the first occurrence of the text
  \<open>"playable_duration_in_ms":\<close> be followed by \<open>30000\<close> and then by no further digit. Then the
  source-markup strategy, and so the chain, returns a video result whose media URL is a valid
  video URL, whose duration is 30, and whose quality map binds \<open>browser_hd\<close> to \<open>c\<close> with
  \<open>\u0026\<close> decoded to \<open>&\<close> and \<open>\/\<close> decoded to \<open>/\<close>.
\<close>

theorem source_markup_video:
  assumes \<open>HTML page = Some html\<close>
      and \<open>extractFromDOMElements page ''video'' = None\<close>
      and \<open>IndexString html ''browser_native_hd_url":'' = Some (Suc n)\<close>
      and \<open>drop n html = ''"browser_native_hd_url":"'' @ c @ ''"'' @ post\<close>
      and \<open>c \<noteq> []\<close> and \<open>CHR 0x22 \<notin> set c\<close>
      and \<open>isValidVideoURL (decodeEscapes c)\<close>
      and \<open>IndexString html ''"playable_duration_in_ms":'' = Some m\<close>
      and \<open>drop m html = ''"playable_duration_in_ms":30000'' @ dpost\<close>
      and \<open>case dpost of [] \<Rightarrow> True | d # ds \<Rightarrow> \<not> isDigit d\<close>
  shows "\<exists>r. extractFromSourceCode page ''video'' = Some r
            \<and> strategyChain page ''video'' = Some r
            \<and> MediaType r = ''video'' \<and> isValidVideoURL (MediaURL r)
            \<and> Duration r = 30
            \<and> VideoUrls r ''browser_hd'' = Some (decodeEscapes c)"
proof -
  have valid: "isValidVideoURL (unescapeURL c)"
    using assms(7) by (simp add: unescapeURL_decodeEscapes)
  have cap: \<open>metadataCapture ''browser_hd'' html = Some c\<close>
    using assms(3,4,5,6) by (rule hdField_captured(2))
  have dur: \<open>metadataCapture ''duration'' html = Some ''30000''\<close>
    using assms(8,9,10) by (rule durationField_captured)
  have "unescapeURL c \<in> set (videoCandidates html)"
    using hdPattern_in_videoPatterns hdField_captured(1) [OF assms(3,4,5,6)]
    by (rule videoCandidates_member)
  then have "list_ex isValidVideoURL (videoCandidates html)"
    using valid by (auto simp: list_ex_iff)
  then obtain u where u: "find isValidVideoURL (videoCandidates html) = Some u"
    and v: "isValidVideoURL u"
    using find_list_ex by blast
  let ?r = "videoResponse u html"
  have s: "extractFromSourceCode page ''video'' = Some ?r"
    using assms(1) u by (simp add: extractFromSourceCode_def)
  have ch: "strategyChain page ''video'' = Some ?r"
    using s assms(2) by (simp add: strategyChain_def)
  have p: "ParseInt10_64 ''30000'' = Some 30000" by code_simp
  have d: "Duration ?r = 30"
    using dur p
    by (simp add: videoResponse_def Let_def mdDuration_extractVideoMetadata go_div_nonneg)
  have q: "VideoUrls ?r ''browser_hd'' = Some (decodeEscapes c)"
    using cap
    by (simp add: videoResponse_def Let_def mdVideoUrls_extractVideoMetadata
                  unescapeURL_decodeEscapes)
  have t: "MediaType ?r = ''video''" "MediaURL ?r = u"
    by (simp_all add: videoResponse_def Let_def)
  show ?thesis using s ch d q t v by auto
qed

text \<open>
  Scenario D satisfies the hypotheses: the field stands at index 1, the duration at index 77,
  and the result binds \<open>browser_hd\<close> to the decoded URL.
\<close>

theorem source_markup_video_witness:
  \<open>HTML (markupPage markupD) = Some markupD
   \<and> extractFromDOMElements (markupPage markupD) ''video'' = None
   \<and> IndexString markupD ''browser_native_hd_url":'' = Some (Suc 1)
   \<and> drop 1 markupD = ''"browser_native_hd_url":"'' @ rawHdURL @ ''"''
                          @ '',"playable_duration_in_ms":30000}''
   \<and> rawHdURL \<noteq> [] \<and> CHR 0x22 \<notin> set rawHdURL
   \<and> isValidVideoURL (decodeEscapes rawHdURL)
   \<and> IndexString markupD ''"playable_duration_in_ms":'' = Some 77
   \<and> drop 77 markupD = ''"playable_duration_in_ms":30000'' @ ''}''
   \<and> \<not> isDigit (CHR ''}'')
   \<and> decodeEscapes rawHdURL = ''https://video.fbcdn.net/v/hd.mp4?a=1&b=2''
   \<and> (\<exists>r. extractFromSourceCode (markupPage markupD) ''video'' = Some r
          \<and> strategyChain (markupPage markupD) ''video'' = Some r
          \<and> MediaType r = ''video'' \<and> isValidVideoURL (MediaURL r)
          \<and> Duration r = 30
          \<and> VideoUrls r ''browser_hd'' = Some ''https://video.fbcdn.net/v/hd.mp4?a=1&b=2'')\<close>
proof -
  have h1: "HTML (markupPage markupD) = Some markupD" by (simp add: markupPage_def)
  have h2: "extractFromDOMElements (markupPage markupD) ''video'' = None" by code_simp
  have h3: \<open>IndexString markupD ''browser_native_hd_url":'' = Some (Suc 1)\<close> by code_simp
  have h4: \<open>drop 1 markupD = ''"browser_native_hd_url":"'' @ rawHdURL @ ''"''
                          @ '',"playable_duration_in_ms":30000}''\<close> by code_simp
  have h5: "rawHdURL \<noteq> []" by code_simp
  have h6: "CHR 0x22 \<notin> set rawHdURL" by code_simp
  have h7: "isValidVideoURL (decodeEscapes rawHdURL)" by code_simp
  have h8: \<open>IndexString markupD ''"playable_duration_in_ms":'' = Some 77\<close> by code_simp
  have h9: \<open>drop 77 markupD = ''"playable_duration_in_ms":30000'' @ ''}''\<close> by code_simp
  have h10: "case ''}'' of [] \<Rightarrow> True | d # ds \<Rightarrow> \<not> isDigit d" by code_simp
  have h11: "\<not> isDigit (CHR ''}'')" by code_simp
  have h12: "decodeEscapes rawHdURL = ''https://video.fbcdn.net/v/hd.mp4?a=1&b=2''" by code_simp
  from source_markup_video [OF h1 h2 h3 h4 h5 h6 h7 h8 h9 h10]
  obtain r where r: "extractFromSourceCode (markupPage markupD) ''video'' = Some r"
      "strategyChain (markupPage markupD) ''video'' = Some r"
      "MediaType r = ''video''" "isValidVideoURL (MediaURL r)" "Duration r = 30"
      "VideoUrls r ''browser_hd'' = Some (decodeEscapes rawHdURL)"
    by blast
  from r(6) h12 have "VideoUrls r ''browser_hd'' = Some ''https://video.fbcdn.net/v/hd.mp4?a=1&b=2''"
    by simp
  with r h1 h2 h3 h4 h5 h6 h7 h8 h9 h11 h12
  show ?thesis by blast
qed

text \<open>
  The claim as stated fails on markup that contains both fields after an earlier duration
  field: the first match decides, and the duration of the result is 5. It also fails on
  markup in which the key of the HD field is swallowed as the value of the key before it:
  the strategy's own HD pattern then captures the key text, no capture is a valid video URL,
  and the strategy returns no result.
\<close>

theorem source_markup_video_counterexample:
  \<open>Contains markupTwoDurations ''"playable_duration_in_ms":30000''
   \<and> Contains markupTwoDurations ''"browser_native_hd_url":"https://video.fbcdn.net/v/hd.mp4"''
   \<and> isValidVideoURL ''https://video.fbcdn.net/v/hd.mp4''
   \<and> extractFromDOMElements (markupPage markupTwoDurations) ''video'' = None
   \<and> map_option Duration (extractFromSourceCode (markupPage markupTwoDurations) ''video'') = Some 5
   \<and> Contains markupShadowedField ''"playable_duration_in_ms":30000''
   \<and> Contains markupShadowedField ''"browser_native_hd_url":"https://media.example/v/hd.mp4"''
   \<and> isValidVideoURL ''https://media.example/v/hd.mp4''
   \<and> extractFromDOMElements (markupPage markupShadowedField) ''video'' = None
   \<and> extractFromSourceCode (markupPage markupShadowedField) ''video'' = None\<close>
  by code_simp

text \<open>The division truncates: 30999 ms are 30 s.\<close>

lemma duration_truncates:
  \<open>map_option Duration
     (extractFromSourceCode (markupPage ''"video_url":"https://video.fbcdn.net/v.mp4","playable_duration_in_ms":30999'') ''video'')
   = Some 30\<close>
  by code_simp

section \<open>The page type the chain runs with\<close>

lemma firstSome_None: "(\<And>x. x \<in> set xs \<Longrightarrow> f x = None) \<Longrightarrow> firstSome f xs = None"
  by (induction xs) auto

lemma firstSome_Some: "firstSome f xs = Some y \<Longrightarrow> \<exists>x \<in> set xs. f x = Some y"
  by (induction xs) (auto split: option.splits)

lemma find_None_list_ex: "\<not> list_ex P xs \<Longrightarrow> find P xs = None"
  by (induction xs) auto

lemma valid_image_no_profile: "isValidImageURL url \<Longrightarrow> \<not> Contains url ''profile''"
  unfolding isValidImageURL_def excludePatterns_def by (auto split: if_splits)

lemma imageFromPattern_valid: "imageFromPattern html pattern = Some url \<Longrightarrow> isValidImageURL url"
  unfolding imageFromPattern_def Let_def by (auto split: option.splits if_splits)

lemma extractMediaURL_chain:
  assumes "normalizeURL parseURL threadsURL = Inr normalizedURL"
      and "browser normalizedURL = Some page"
  shows "extractMediaURL parseURL browser threadsURL =
           (case strategyChain page ''video'' of Some r \<Rightarrow> Inr r | None \<Rightarrow> Inl NoMediaFound)"
  using assms by (simp add: extractMediaURL_def strategyChain_def split: option.splits)

lemma no_video_element_DOM:
  assumes "\<forall>selector \<in> set videoSelectors.
             elements page selector = None \<or> elements page selector = Some []"
  shows "extractFromDOMElements page ''video'' = None"
proof -
  have "firstSome (\<lambda>selector. case elements page selector of
                                 Some videoElements \<Rightarrow> firstSome probeVideoElement videoElements
                               | None \<Rightarrow> None) videoSelectors = None"
    using assms by (intro firstSome_None) auto
  then show ?thesis by (simp add: extractFromDOMElements_def)
qed

lemma profile_image_DOM:
  assumes "elements page ''img'' = Some [img]" "attribute (attrs img) ''src'' = Some u"
      and "Contains u ''profile''"
  shows "extractFromDOMElements page ''image'' = None"
  using assms valid_image_no_profile [of u] by (auto simp: extractFromDOMElements_def)

lemma no_candidate_source:
  assumes "HTML page = Some html" "\<not> list_ex isValidVideoURL (videoCandidates html)"
      and "extractFromSourceCode page pageType = Some r"
  shows "pageType = ''image'' \<and> isValidImageURL (MediaURL r)"
proof -
  have f: "find isValidVideoURL (videoCandidates html) = None"
    using assms(2) by (rule find_None_list_ex)
  from assms(1,3) f have t: "pageType = ''image''"
    and m: "map_option (\<lambda>u. mediaResponse u ''image'') (firstSome (imageFromPattern html) imagePatterns) = Some r"
    by (auto simp: extractFromSourceCode_def split: if_splits)
  from m obtain url where "firstSome (imageFromPattern html) imagePatterns = Some url"
    and r: "r = mediaResponse url ''image''" by auto
  then obtain pattern where "imageFromPattern html pattern = Some url"
    using firstSome_Some by fastforce
  then have "isValidImageURL url" by (rule imageFromPattern_valid)
  then show ?thesis using t r by (simp add: mediaResponse_def)
qed


lemma metaSaysVideo_no_element:
  "\<forall>selector \<in> set selectors. elements page selector = None \<or> elements page selector = Some []
   \<Longrightarrow> fst (metaSaysVideo page selectors alive) = False"
  by (induction selectors arbitrary: alive) (auto simp: element_def)

lemma no_video_signal_image:
  assumes "\<forall>selector \<in> set (videoSelectors @ videoIndicators).
             elements page selector = None \<or> elements page selector = Some []"
      and "HTML page = Some html" "\<not> htmlSaysVideo html"
  shows "analyzePageContent page = ''image''"
proof -
  have "fst (metaSaysVideo page videoIndicators True) = False"
    using assms(1) by (intro metaSaysVideo_no_element) auto
  then obtain alive where a: "metaSaysVideo page videoIndicators True = (False, alive)"
    by (cases "metaSaysVideo page videoIndicators True") auto
  have "''video'' \<in> set videoSelectors" by (simp add: videoSelectors_def)
  then have "elements page ''video'' = None \<or> elements page ''video'' = Some []"
    using assms(1) by auto
  then have b: "\<not> (case elements page ''video'' of
                 Some videoElements \<Rightarrow> list_ex videoElementSaysVideo videoElements
               | None \<Rightarrow> False)"
    by auto
  show ?thesis
    unfolding analyzePageContent_def a using b assms(2,3)
    by (simp split: prod.splits)
qed

text \<open>
  A page whose only media candidate is a profile picture: no video selector and no video meta
  selector matches an element, the only \<open>img\<close> has a \<open>src\<close> that contains \<open>profile\<close>, and
  the markup holds no video signal, no valid video capture and no image reference that the
  source-markup strategy accepts. On such a page the classifier answers \<open>image\<close>, and the
  chain returns no result under any page type.
\<close>

lemma profile_page_chain:
  assumes "\<forall>selector \<in> set (videoSelectors @ videoIndicators).
             elements page selector = None \<or> elements page selector = Some []"
      and "elements page ''img'' = Some [img]" "attribute (attrs img) ''src'' = Some u"
      and "Contains u ''profile''"
      and "HTML page = Some html" "\<not> htmlSaysVideo html"
      and "\<not> list_ex isValidVideoURL (videoCandidates html)"
      and "firstSome (imageFromPattern html) imagePatterns = None"
  shows "analyzePageContent page = ''image''"
    and "strategyChain page pageType = None"
proof -
  show "analyzePageContent page = ''image''"
    using assms(1,5,6) by (rule no_video_signal_image)
  have d: "extractFromDOMElements page ''video'' = None"
    using assms(1) by (intro no_video_element_DOM) auto
  have i: "extractFromDOMElements page ''image'' = None"
    using assms(2,3,4) by (rule profile_image_DOM)
  have dom: "extractFromDOMElements page pageType = None"
    using d i by (cases "pageType = ''video''") (simp_all add: extractFromDOMElements_def)
  have f: "find isValidVideoURL (videoCandidates html) = None"
    using assms(7) by (rule find_None_list_ex)
  have src: "extractFromSourceCode page pageType = None"
    using assms(5,8) f by (simp add: extractFromSourceCode_def)
  show "strategyChain page pageType = None"
    using dom src by (simp add: strategyChain_def)
qed

text \<open>So the call on such a page returns no result.\<close>

lemma profile_page_no_result:
  assumes "normalizeURL parseURL threadsURL = Inr normalizedURL"
      and "browser normalizedURL = Some page"
      and "\<forall>selector \<in> set (videoSelectors @ videoIndicators).
             elements page selector = None \<or> elements page selector = Some []"
      and "elements page ''img'' = Some [img]" "attribute (attrs img) ''src'' = Some u"
      and "Contains u ''profile''"
      and "HTML page = Some html" "\<not> htmlSaysVideo html"
      and "\<not> list_ex isValidVideoURL (videoCandidates html)"
      and "firstSome (imageFromPattern html) imagePatterns = None"
  shows "extractMediaURL parseURL browser threadsURL = Inl NoMediaFound"
proof -
  have "strategyChain page ''video'' = None"
    using assms(3-10) by (rule profile_page_chain(2))
  then show ?thesis
    using extractMediaURL_chain [of parseURL threadsURL normalizedURL browser page] assms(1,2)
    by simp
qed

text \<open>
  Claim C1 says that the strategy chain runs with the page type that the classifier produces.
  The code does not do that: \<open>extractMediaURL\<close> passes the literal \<open>video\<close> to both strategies
  and never calls \<open>analyzePageContent\<close> (lemma \<open>extractMediaURL_chain\<close>). On the page whose only
  element is a content image of the trusted CDN, the classifier answers \<open>image\<close>, the chain
  run with that answer selects the image as an image result, the chain run with \<open>video\<close>
  returns no result, and the call fails with \<open>NoMediaFound\<close>. The part of the claim on the
  profile picture holds, under any page type (lemma \<open>profile_page_chain\<close>).
\<close>

theorem image_post_not_extracted:
  "analyzePageContent (imgPage hdImage) = ''image''
   \<and> map_option MediaURL (strategyChain (imgPage hdImage) (analyzePageContent (imgPage hdImage)))
       = Some hdImage
   \<and> map_option MediaType (strategyChain (imgPage hdImage) (analyzePageContent (imgPage hdImage)))
       = Some ''image''
   \<and> strategyChain (imgPage hdImage) ''video'' = None
   \<and> extractMediaURL url_Parse (\<lambda>url. Some (imgPage hdImage)) scenarioA = Inl NoMediaFound"
proof -
  have a: "analyzePageContent (imgPage hdImage) = ''image''" by code_simp
  have b: "map_option MediaURL (strategyChain (imgPage hdImage) ''image'') = Some hdImage"
    by code_simp
  have c: "map_option MediaType (strategyChain (imgPage hdImage) ''image'') = Some ''image''"
    by code_simp
  have d: "strategyChain (imgPage hdImage) ''video'' = None" by code_simp
  have "case extractMediaURL url_Parse (\<lambda>url. Some (imgPage hdImage)) scenarioA of
          Inl err \<Rightarrow> err = NoMediaFound | Inr r \<Rightarrow> False"
    by code_simp
  then have e: "extractMediaURL url_Parse (\<lambda>url. Some (imgPage hdImage)) scenarioA
                  = Inl NoMediaFound"
    by (simp split: sum.splits)
  show ?thesis using a b c d e by simp
qed

text \<open>
  The page whose only element is the profile picture is such a page, and the call on it
  returns no result.
\<close>

lemma profile_page_instance:
  "Contains profileImage ''profile''
   \<and> \<not> htmlSaysVideo (imgMarkup profileImage)
   \<and> \<not> list_ex isValidVideoURL (videoCandidates (imgMarkup profileImage))
   \<and> firstSome (imageFromPattern (imgMarkup profileImage)) imagePatterns = None
   \<and> analyzePageContent (imgPage profileImage) = ''image''
   \<and> strategyChain (imgPage profileImage) ''image'' = None
   \<and> strategyChain (imgPage profileImage) ''video'' = None"
  by code_simp

section \<open>What the path pattern accepts\<close>

text \<open>
  The path check accepts exactly the paths that begin with \<open>/@handle/post/id\<close>: the pattern
  is tied to the start of the path and not to its end.
\<close>

lemma threadsPatternMatch_iff: "threadsPatternMatch path \<longleftrightarrow> postPathPrefix path"
proof
  assume "threadsPatternMatch path"
  then obtain r where "matchseq threadsPattern path None None = Some r"
    by (auto simp: threadsPatternMatch_def)
  then obtain s1 where s1: "path = ''/@'' @ s1"
    and m1: "matchseq [Pl (In [PerlW, Ch (CHR ''.''), Ch (CHR ''-'')]), L ''/post/'',
                       Pl (In [PerlW, Ch (CHR ''-'')]), Op (CHR ''/'')] s1 None None = Some r"
    unfolding threadsPattern_def matchseq_L_iff by blast
  from matchseq_Pl_D [OF m1] obtain handle s2 where s2: "s1 = handle @ s2" "handle \<noteq> []"
    "list_all handleChar handle"
    and m2: "matchseq [L ''/post/'', Pl (In [PerlW, Ch (CHR ''-'')]), Op (CHR ''/'')] s2 None None = Some r"
    unfolding handleChar_def by blast
  from m2 obtain s3 where s3: "s2 = ''/post/'' @ s3"
    and m3: "matchseq [Pl (In [PerlW, Ch (CHR ''-'')]), Op (CHR ''/'')] s3 None None = Some r"
    unfolding matchseq_L_iff by blast
  from matchseq_Pl_D [OF m3] obtain postId rest where s4: "s3 = postId @ rest" "postId \<noteq> []"
    "list_all postIdChar postId"
    unfolding postIdChar_def by blast
  have "path = ''/@'' @ handle @ ''/post/'' @ postId @ rest"
    using s1 s2(1) s3 s4(1) by simp
  then show "postPathPrefix path"
    unfolding postPathPrefix_def using s2(2,3) s4(2,3) by blast
next
  assume "postPathPrefix path"
  then obtain handle postId rest where p: "path = ''/@'' @ handle @ ''/post/'' @ postId @ rest"
    and h: "handle \<noteq> []" "list_all handleChar handle"
    and i: "postId \<noteq> []" "list_all postIdChar postId"
    unfolding postPathPrefix_def by blast
  have a: "matchseq [Pl (In [PerlW, Ch (CHR ''-'')]), Op (CHR ''/'')] (postId @ rest) None None \<noteq> None"
    using i matchseq_Op_last unfolding postIdChar_def by (intro matchseq_Pl_I) auto
  have b: "matchseq [L ''/post/'', Pl (In [PerlW, Ch (CHR ''-'')]), Op (CHR ''/'')]
             (''/post/'' @ postId @ rest) None None \<noteq> None"
    using a unfolding matchseq_L_iff by auto
  have c: "matchseq [Pl (In [PerlW, Ch (CHR ''.''), Ch (CHR ''-'')]), L ''/post/'',
                     Pl (In [PerlW, Ch (CHR ''-'')]), Op (CHR ''/'')]
             (handle @ ''/post/'' @ postId @ rest) None None \<noteq> None"
    using h b unfolding handleChar_def by (intro matchseq_Pl_I) auto
  have "matchseq threadsPattern path None None \<noteq> None"
    unfolding threadsPattern_def p using c unfolding matchseq_L_iff by auto
  then show "threadsPatternMatch path" by (simp add: threadsPatternMatch_def)
qed

section \<open>Normalizing an output whose path holds no escaped byte\<close>

lemma unescapeValid_clean: "CHR ''%'' \<notin> set s \<Longrightarrow> unescapeValid encodePath s"
  by (induction s) auto

lemma unescapeBytes_clean: "CHR ''%'' \<notin> set s \<Longrightarrow> unescapeBytes s = s"
  by (induction s rule: unescapeBytes.induct) auto

lemma Cut_absent: "sep \<notin> set s \<Longrightarrow> Cut s sep = (s, [], False)"
  by (simp add: Cut_def)

lemma HasSuffix_absent: "c \<notin> set s \<Longrightarrow> \<not> HasSuffix s [c]"
proof
  assume a: "c \<notin> set s" and "HasSuffix s [c]"
  then have "Contains s [c]" by (rule_tac HasSuffix_Contains)
  then have "sublist [c] s" by (simp add: Contains_sublist)
  then have "set [c] \<subseteq> set s" by (rule set_mono_sublist)
  with a show False by simp
qed

lemma clean_bytes:
  assumes "list_all cleanPathByte p"
  shows "CHR ''?'' \<notin> set p" "CHR ''#'' \<notin> set p" "CHR ''%'' \<notin> set p"
    "\<not> list_ex (\<lambda>c. (of_char c :: nat) < 32 \<or> (of_char c :: nat) = 127) p"
proof -
  have a: "\<forall>c \<in> set p. cleanPathByte c" using assms by (simp add: list_all_iff)
  show "CHR ''?'' \<notin> set p"
  proof
    assume "CHR ''?'' \<in> set p"
    then have "cleanPathByte (CHR ''?'')" using a by blast
    then show False by (simp add: cleanPathByte_def)
  qed
  show "CHR ''#'' \<notin> set p"
  proof
    assume "CHR ''#'' \<in> set p"
    then have "cleanPathByte (CHR ''#'')" using a by blast
    then show False by (simp add: cleanPathByte_def)
  qed
  show "CHR ''%'' \<notin> set p"
  proof
    assume "CHR ''%'' \<in> set p"
    then have "cleanPathByte (CHR ''%'')" using a by blast
    then show False by (simp add: cleanPathByte_def)
  qed
  show "\<not> list_ex (\<lambda>c. (of_char c :: nat) < 32 \<or> (of_char c :: nat) = 127) p"
    using assms by (induction p) (simp_all add: cleanPathByte_def)
qed

lemma url_Parse_canonical:
  assumes "postPathPrefix p" and "list_all cleanPathByte p"
  shows "url_Parse (''https://www.threads.net'' @ p) =
           Some \<lparr>Scheme = ''https'', Opaque = [], Host = ''www.threads.net'', Path = p,
                 RawQuery = [], Fragment = []\<rparr>"
proof -
  let ?raw = "''https://www.threads.net'' @ p"
  let ?rest = "''//www.threads.net'' @ p"
  obtain t where p: "p = CHR ''/'' # t"
    using assms(1) unfolding postPathPrefix_def by auto
  have c: "CHR ''?'' \<notin> set p" "CHR ''#'' \<notin> set p" "CHR ''%'' \<notin> set p"
    "\<not> list_ex (\<lambda>c. (of_char c :: nat) < 32 \<or> (of_char c :: nat) = 127) p"
    using assms(2) clean_bytes by blast+
  have 1: "Cut ?raw (CHR ''#'') = (?raw, [], False)"
    using c(2) by (intro Cut_absent) simp
  have 2: "\<not> stringContainsCTLByte ?raw"
    using c(4) by (simp add: stringContainsCTLByte_def)
  have 3: "getScheme ?raw = Some (''https'', ?rest)"
    by (simp add: getScheme_def isAlpha_def isDigit_def)
  have 4: "ToLower ''https'' = ''https''" by (simp add: ToLower_def)
  have 5: "\<not> HasSuffix ?rest ''?''"
    using c(1) by (intro HasSuffix_absent) simp
  have 6: "Cut ?rest (CHR ''?'') = (?rest, [], False)"
    using c(1) by (intro Cut_absent) simp
  have 7: "takeWhile (\<lambda>c. c \<noteq> CHR ''/'') (drop 2 ?rest) = ''www.threads.net''"
    "dropWhile (\<lambda>c. c \<noteq> CHR ''/'') (drop 2 ?rest) = p"
    by (simp_all add: p)
  have 8: "parseAuthority parseHost121 ''www.threads.net'' = Some ''www.threads.net''"
    by code_simp
  have 9: "unescape p encodePath = Some p"
    using c(3) by (simp add: unescape_def unescapeValid_clean unescapeBytes_clean)
  have 10: "parse parseHost121 ?raw =
           Some \<lparr>Scheme = ''https'', Opaque = [], Host = ''www.threads.net'', Path = p,
                 RawQuery = [], Fragment = []\<rparr>"
    unfolding parse_def using 2 3 4 5 6 7 8 9
    by (simp add: Let_def setPath_def del: drop_Suc_Cons)
  show ?thesis
    unfolding url_Parse_def url_ParseFor_def using 1 10 by simp
qed

text \<open>
  When the decoded path of an accepted input holds no \<open>?\<close>, \<open>#\<close>, \<open>%\<close> or control byte, the
  output normalizes to itself and holds no query string.
\<close>

lemma normalizing_canonical_output:
  assumes "normalizeURL parseURL inputURL = Inr out" and "parseURL inputURL = Some u"
      and "list_all cleanPathByte (Path u)"
  shows "normalizeURL url_Parse out = Inr out \<and> CHR ''?'' \<notin> set out"
proof -
  have m: "threadsPatternMatch (Path u)" and o: "out = ''https://www.threads.net'' @ Path u"
    using assms(1,2) by (auto simp: normalizeURL_def normalizeParsed_def split: if_splits)
  have "postPathPrefix (Path u)" using m by (simp add: threadsPatternMatch_iff)
  then have "url_Parse out =
           Some \<lparr>Scheme = ''https'', Opaque = [], Host = ''www.threads.net'', Path = Path u,
                 RawQuery = [], Fragment = []\<rparr>"
    unfolding o using assms(3) by (rule url_Parse_canonical)
  moreover have "list_ex (\<lambda>domain. Contains ''www.threads.net'' domain) validDomains" by code_simp
  ultimately have "normalizeURL url_Parse out = Inr out"
    using m o by (simp add: normalizeURL_def normalizeParsed_def)
  moreover have "CHR ''?'' \<notin> set out"
    unfolding o using clean_bytes(1) [OF assms(3)] by simp
  ultimately show ?thesis by simp
qed

section \<open>Hosts in brackets\<close>

text \<open>
  \<open>url_Parse\<close> treats a host in brackets as Go 1.21 does. Later toolchains reject some of
  the hosts that Go 1.21 accepts; \<open>url_ParseFor\<close> takes that treatment as a parameter. The
  inputs of this development hold no bracket, so the facts about them hold for every
  treatment.
\<close>

lemma parseHost_no_bracket:
  "CHR ''['' \<notin> set host \<Longrightarrow> CHR '']'' \<notin> set host \<Longrightarrow>
   parseHost f host = parseHost g host"
  by (simp add: parseHost_def)

lemma parseAuthority_no_bracket:
  assumes "CHR ''['' \<notin> set authority" "CHR '']'' \<notin> set authority"
  shows "parseAuthority f authority = parseAuthority g authority"
proof -
  have a: "parseHost f authority = parseHost g authority"
    using assms by (rule parseHost_no_bracket)
  have b: "parseHost f (drop n authority) = parseHost g (drop n authority)" for n
    using assms by (intro parseHost_no_bracket) (auto dest: in_set_dropD)
  show ?thesis
    unfolding parseAuthority_def using a b by (simp split: option.splits)
qed

lemma Cut_before_set: "Cut s c = (x, a, b) \<Longrightarrow> set x \<subseteq> set s"
  by (auto simp: Cut_def split: if_splits dest: set_takeWhileD)

lemma parse_no_bracket:
  assumes "CHR ''['' \<notin> set rawURL" "CHR '']'' \<notin> set rawURL"
  shows "parse f rawURL = parse g rawURL"
proof (cases "getScheme rawURL")
  case None
  then show ?thesis by (simp add: parse_def)
next
  case (Some sr)
  obtain scheme rest0 where sr: "sr = (scheme, rest0)" by (cases sr)
  have s0: "set rest0 \<subseteq> set rawURL"
    using Some sr by (auto simp: getScheme_def split: schemeScan.splits if_splits dest: in_set_dropD)
  have pa: "parseAuthority f (takeWhile P (drop n r)) = parseAuthority g (takeWhile P (drop n r))"
    if "set r \<subseteq> set rawURL" for P n r
  proof -
    have "set (takeWhile P (drop n r)) \<subseteq> set rawURL"
      using that by (auto dest: set_takeWhileD in_set_dropD)
    then show ?thesis using assms by (intro parseAuthority_no_bracket) auto
  qed
  obtain rest rawQuery where pr:
    "(if HasSuffix rest0 ''?'' \<and> count_list rest0 (CHR ''?'') = 1 then (butlast rest0, [])
      else (case Cut rest0 (CHR ''?'') of (b, a, found) \<Rightarrow> (b, a))) = (rest, rawQuery)"
    by (metis surj_pair)
  have "set rest \<subseteq> set rest0"
  proof (cases "HasSuffix rest0 ''?'' \<and> count_list rest0 (CHR ''?'') = 1")
    case True
    then have "rest = butlast rest0" using pr by simp
    then show ?thesis by (auto dest: in_set_butlastD)
  next
    case False
    then obtain a b where "Cut rest0 (CHR ''?'') = (rest, a, b)"
      using pr by (auto split: prod.splits)
    then show ?thesis by (rule Cut_before_set)
  qed
  then have e: "parseAuthority f (takeWhile P (drop n rest)) = parseAuthority g (takeWhile P (drop n rest))"
    for P n
    using s0 by (intro pa) auto
  show ?thesis
    by (simp only: parse_def Some sr Let_def option.case prod.case pr e)
qed

lemma url_ParseFor_no_bracket:
  assumes "CHR ''['' \<notin> set rawURL" "CHR '']'' \<notin> set rawURL"
  shows "url_ParseFor bracketHost rawURL = url_Parse rawURL"
proof -
  have e: "parse bracketHost x = parse parseHost121 x" if "Cut rawURL c = (x, a, b)" for x c a b
    using Cut_before_set [OF that] assms by (intro parse_no_bracket) auto
  show ?thesis
    by (simp add: url_Parse_def url_ParseFor_def e split: prod.splits)
qed

lemma normalizeURL_no_bracket:
  "CHR ''['' \<notin> set inputURL \<Longrightarrow> CHR '']'' \<notin> set inputURL \<Longrightarrow>
   normalizeURL (url_ParseFor bracketHost) inputURL = normalizeURL url_Parse inputURL"
  by (simp add: normalizeURL_def url_ParseFor_no_bracket)

text \<open>
  The inputs of the normalizer used above give the same answers for every treatment of a host
  in brackets.
\<close>

lemma inputs_for_every_toolchain:
  "normalizeURL (url_ParseFor bracketHost) scenarioA
     = Inr ''https://www.threads.net/@alice/post/Cabc123''
   \<and> normalizeURL (url_ParseFor bracketHost) upperCaseHost = Inl UntrustedDomain
   \<and> normalizeURL (url_ParseFor bracketHost) trailingSegments
     = Inr ''https://www.threads.net/@alice/post/Cabc123/extra/segments''
   \<and> normalizeURL (url_ParseFor bracketHost) escapedQuery
     = Inr ''https://www.threads.net/@alice/post/Cabc123/?hl=en''
   \<and> normalizeURL (url_ParseFor bracketHost) ''https://www.threads.net/@alice/post/Cabc123/?hl=en''
     = Inr ''https://www.threads.net/@alice/post/Cabc123/''"
proof -
  have b: "CHR ''['' \<notin> set scenarioA" "CHR '']'' \<notin> set scenarioA"
      "CHR ''['' \<notin> set upperCaseHost" "CHR '']'' \<notin> set upperCaseHost"
      "CHR ''['' \<notin> set trailingSegments" "CHR '']'' \<notin> set trailingSegments"
      "CHR ''['' \<notin> set escapedQuery" "CHR '']'' \<notin> set escapedQuery"
      "CHR ''['' \<notin> set ''https://www.threads.net/@alice/post/Cabc123/?hl=en''"
      "CHR '']'' \<notin> set ''https://www.threads.net/@alice/post/Cabc123/?hl=en''"
    by code_simp+
  have v: "normalizeURL url_Parse scenarioA = Inr ''https://www.threads.net/@alice/post/Cabc123''"
      "normalizeURL url_Parse upperCaseHost = Inl UntrustedDomain"
      "normalizeURL url_Parse trailingSegments
         = Inr ''https://www.threads.net/@alice/post/Cabc123/extra/segments''"
      "normalizeURL url_Parse escapedQuery
         = Inr ''https://www.threads.net/@alice/post/Cabc123/?hl=en''"
      "normalizeURL url_Parse ''https://www.threads.net/@alice/post/Cabc123/?hl=en''
         = Inr ''https://www.threads.net/@alice/post/Cabc123/''"
    by code_simp+
  show ?thesis
    using b v by (simp add: normalizeURL_no_bracket)
qed

end
